theory Spec2Isabelle
  imports Main "HOL-Library.Sublist" "HOL-Library.AList" "HOL-Library.Multiset"
begin

section \<open>The chat store of solid-ag-chat: data model\<close>

text \<open>
  The store (\<^verbatim>\<open>createAgUiStore\<close>) keeps one \<^verbatim>\<open>ChatState\<close> object in a
  solid-js store and two JavaScript sets of conversation ids. Event handlers and
  the imperative methods mutate the state through \<^verbatim>\<open>setState(path..., value)\<close>.
  The model passes the state explicitly.

  Three facts about \<^verbatim>\<open>setState\<close> of solid-js/store shape the model:
  \<^item> a plain-object value written over an existing plain object is merged into it
    key by key (\<^verbatim>\<open>mergeStoreNode\<close>); keys the value does not have keep
    their old contents, a key whose value is \<^verbatim>\<open>undefined\<close> is deleted;
  \<^item> arrays and primitive values replace what was there, and writing
    \<^verbatim>\<open>undefined\<close> under a key deletes the key;
  \<^item> a path that walks through a missing node, such as
    \<^verbatim>\<open>setState('messages', id, 'status', v)\<close> when \<^verbatim>\<open>messages[id]\<close> is
    \<^verbatim>\<open>undefined\<close>, reads a property of \<^verbatim>\<open>undefined\<close> and throws a
    \<^verbatim>\<open>TypeError\<close>; the writes made before the throw stay.

  Identifiers are strings. \<^verbatim>\<open>createdAt\<close> is an ISO timestamp in the source; the
  store only ever reads it through \<^verbatim>\<open>new Date(s).getTime()\<close>, so the model keeps
  that number of milliseconds (\<open>None\<close> when the field is absent). An optional
  field of an object is an \<open>option\<close>, \<open>None\<close> standing for an absent key.
\<close>

type_synonym Id = string

type_synonym Time = int

datatype MessageStatus = Pending | Streaming | Completed | Errored | Canceled

record ToolCall =
  tc_id :: Id
  tc_type :: string
  tc_name :: string
  tc_arguments :: string

record Message =
  m_id :: Id
  role :: string
  content :: string
  conversationId :: "Id option"
  status :: MessageStatus
  createdAt :: "Time option"
  toolCalls :: "ToolCall list option"
  toolCallId :: "Id option"

record Conversation =
  c_id :: Id
  title :: "string option"
  c_status :: string
  c_metadata :: "(string \<times> string) list option"

datatype AttachmentState = AttPending | AttUploading | AttUploaded | AttAvailable | AttFailed

datatype MetaValue = MStr string | MNum int

record Attachment =
  att_id :: Id
  att_name :: string
  att_mime :: string
  att_size :: nat
  att_upload_url :: string
  att_state :: AttachmentState
  att_metadata :: "(string \<rightharpoonup> MetaValue) option"

record ChatAgentState =
  suggestedQuestions :: "string list option"
  ag_attachments :: "(Id \<rightharpoonup> Attachment) option"

record StreamingState =
  s_text :: string

record ToolCallInProgress =
  tp_id :: Id
  tp_name :: string
  tp_args :: string
  tp_messageId :: Id

text \<open>
  \<^verbatim>\<open>messages\<close> is an association list in insertion order, because
  \<^verbatim>\<open>TOOL_CALL_RESULT\<close> searches \<^verbatim>\<open>Object.values(state.messages)\<close> for the
  first match; the other dictionaries are only read by key.
\<close>

record ChatState =
  revision :: string
  conversations :: "Id \<rightharpoonup> Conversation"
  messages :: "(Id \<times> Message) list"
  attachments :: "Id \<rightharpoonup> Attachment"
  messagesByConversation :: "Id \<rightharpoonup> Id list"
  streaming :: "Id \<rightharpoonup> StreamingState"
  toolCallsInProgress :: "Id \<rightharpoonup> ToolCallInProgress"
  agentStateByConversation :: "Id \<rightharpoonup> ChatAgentState"
  activeConversationId :: "Id option"

datatype error = TypeError

text \<open>
  A handler either returns, or throws after some of its writes: both outcomes carry
  the state the store is left in.
\<close>

datatype outcome = Returned ChatState | Threw error ChatState

fun andThen :: "outcome \<Rightarrow> (ChatState \<Rightarrow> outcome) \<Rightarrow> outcome" where
  "andThen (Returned s) f = f s"
| "andThen (Threw e s) f = Threw e s"

subsection \<open>JavaScript truthiness of optional strings\<close>

definition truthy :: "string option \<Rightarrow> bool" where
  "truthy x = (case x of None \<Rightarrow> False | Some v \<Rightarrow> v \<noteq> [])"

text \<open>\<^verbatim>\<open>a || b\<close> on optional strings, and \<^verbatim>\<open>a || 'literal'\<close>.\<close>

definition or_else :: "string option \<Rightarrow> string option \<Rightarrow> string option" where
  "or_else a b = (if truthy a then a else b)"

definition or_default :: "string option \<Rightarrow> string \<Rightarrow> string" where
  "or_default a d = (case a of None \<Rightarrow> d | Some v \<Rightarrow> if v = [] then d else v)"

subsection \<open>Store access\<close>

definition getMessage :: "ChatState \<Rightarrow> Id \<Rightarrow> Message option" where
  "getMessage s k = map_of (messages s) k"

definition putMessage :: "Id \<Rightarrow> Message \<Rightarrow> ChatState \<Rightarrow> ChatState" where
  "putMessage k m s = s\<lparr>messages := AList.update k m (messages s)\<rparr>"

text \<open>
  The association list stands for a JavaScript object: its keys are distinct and, as every
  write of the store files a message under its own id, each message sits under its id.
  The last section shows that every store reached from a new one is of this kind.
\<close>

definition wellKeyed :: "ChatState \<Rightarrow> bool" where
  "wellKeyed s = (distinct (map fst (messages s)) \<and> list_all (\<lambda>(k, m). m_id m = k) (messages s))"

text \<open>
  \<^verbatim>\<open>setState('messages', id, field, value)\<close>: throws when the message is missing.
\<close>

definition updateMessage :: "Id \<Rightarrow> (Message \<Rightarrow> Message) \<Rightarrow> ChatState \<Rightarrow> outcome" where
  "updateMessage k f s =
     (case getMessage s k of
        None \<Rightarrow> Threw TypeError s
      | Some m \<Rightarrow> Returned (putMessage k (f m) s))"

text \<open>
  \<^verbatim>\<open>setState('messages', m.id, m)\<close> for a message document \<open>m\<close> whose absent keys
  are \<open>None\<close>: merged into the message already stored under that id.
\<close>

definition mergeStoreNode_message :: "Message \<Rightarrow> Message \<Rightarrow> Message" where
  "mergeStoreNode_message prev v =
     v\<lparr>conversationId := (case conversationId v of None \<Rightarrow> conversationId prev | Some c \<Rightarrow> Some c),
       createdAt := (case createdAt v of None \<Rightarrow> createdAt prev | Some t \<Rightarrow> Some t),
       toolCalls := (case toolCalls v of None \<Rightarrow> toolCalls prev | Some t \<Rightarrow> Some t),
       toolCallId := (case toolCallId v of None \<Rightarrow> toolCallId prev | Some t \<Rightarrow> Some t)\<rparr>"

definition setMessageDoc :: "Message \<Rightarrow> ChatState \<Rightarrow> ChatState" where
  "setMessageDoc m s =
     putMessage (m_id m)
       (case getMessage s (m_id m) of None \<Rightarrow> m | Some prev \<Rightarrow> mergeStoreNode_message prev m) s"

text \<open>
  \<^verbatim>\<open>setState('messagesByConversation', c, (arr = []) => arr.includes(id) ? arr : [...arr, id])\<close>
\<close>

definition appendMessageId :: "Id \<Rightarrow> Id \<Rightarrow> ChatState \<Rightarrow> ChatState" where
  "appendMessageId c k s =
     (let arr = (case messagesByConversation s c of None \<Rightarrow> [] | Some a \<Rightarrow> a)
      in if k \<in> set arr then s
         else s\<lparr>messagesByConversation := (messagesByConversation s)(c \<mapsto> arr @ [k])\<rparr>)"

section \<open>Text streaming handlers\<close>

text \<open>
  \<^verbatim>\<open>TEXT_MESSAGE_START\<close>. The object written has the keys id, role, content,
  conversationId, status and createdAt, so a message already stored under the id keeps
  its \<^verbatim>\<open>toolCalls\<close> and \<^verbatim>\<open>toolCallId\<close> and has everything else overwritten.
  \<open>now\<close> is the clock reading of \<^verbatim>\<open>new Date()\<close>.
\<close>

definition on_TEXT_MESSAGE_START ::
  "Time \<Rightarrow> Id \<Rightarrow> string option \<Rightarrow> Id option \<Rightarrow> ChatState \<Rightarrow> outcome" where
  "on_TEXT_MESSAGE_START now messageId p_role p_conversationId s =
     (let msg = \<lparr>m_id = messageId, role = or_default p_role ''assistant'', content = [],
                 conversationId = or_else p_conversationId (activeConversationId s),
                 status = Streaming, createdAt = Some now,
                 toolCalls = None, toolCallId = None\<rparr>;
          stored = (case getMessage s messageId of
                      None \<Rightarrow> msg
                    | Some prev \<Rightarrow> msg\<lparr>toolCalls := toolCalls prev, toolCallId := toolCallId prev\<rparr>);
          s1 = putMessage messageId stored s;
          s2 = (case conversationId msg of
                  None \<Rightarrow> s1
                | Some c \<Rightarrow> if c = [] then s1 else appendMessageId c messageId s1)
      in Returned (s2\<lparr>streaming := (streaming s2)(messageId \<mapsto> \<lparr>s_text = []\<rparr>)\<rparr>))"

definition on_TEXT_MESSAGE_CONTENT :: "Id \<Rightarrow> string option \<Rightarrow> ChatState \<Rightarrow> outcome" where
  "on_TEXT_MESSAGE_CONTENT messageId delta s =
     (let prev = (case streaming s messageId of None \<Rightarrow> \<lparr>s_text = []\<rparr> | Some b \<Rightarrow> b)
      in Returned (s\<lparr>streaming := (streaming s)(messageId \<mapsto> \<lparr>s_text = s_text prev @ or_default delta []\<rparr>)\<rparr>))"

definition on_TEXT_MESSAGE_END :: "Id \<Rightarrow> ChatState \<Rightarrow> outcome" where
  "on_TEXT_MESSAGE_END messageId s =
     (let streamingText = map_option s_text (streaming s messageId) in
      andThen (if truthy streamingText
               then updateMessage messageId (\<lambda>m. m\<lparr>content := or_default streamingText []\<rparr>) s
               else Returned s)
        (\<lambda>s1. updateMessage messageId (\<lambda>m. m\<lparr>status := Completed\<rparr>)
                 (s1\<lparr>streaming := (streaming s1)(messageId := None)\<rparr>)))"

definition on_message_errored :: "Id \<Rightarrow> ChatState \<Rightarrow> outcome" where
  "on_message_errored messageId s = updateMessage messageId (\<lambda>m. m\<lparr>status := Errored\<rparr>) s"

definition on_message_canceled :: "Id \<Rightarrow> ChatState \<Rightarrow> outcome" where
  "on_message_canceled messageId s =
     (let streamingText = map_option s_text (streaming s messageId) in
      andThen (if truthy streamingText
               then updateMessage messageId (\<lambda>m. m\<lparr>content := or_default streamingText []\<rparr>) s
               else Returned s)
        (\<lambda>s1. updateMessage messageId (\<lambda>m. m\<lparr>status := Canceled\<rparr>) s1))"

section \<open>Conversation and legacy message handlers\<close>

definition mergeStoreNode_conversation :: "Conversation \<Rightarrow> Conversation \<Rightarrow> Conversation" where
  "mergeStoreNode_conversation prev v =
     v\<lparr>title := (case title v of None \<Rightarrow> title prev | Some x \<Rightarrow> Some x),
       c_metadata := (case c_metadata v of None \<Rightarrow> c_metadata prev | Some x \<Rightarrow> Some x)\<rparr>"

definition setConversationDoc :: "Conversation \<Rightarrow> ChatState \<Rightarrow> ChatState" where
  "setConversationDoc c s =
     s\<lparr>conversations := (conversations s)(c_id c \<mapsto>
          (case conversations s (c_id c) of
             None \<Rightarrow> c
           | Some prev \<Rightarrow> mergeStoreNode_conversation prev c))\<rparr>"

definition on_conversation_created :: "Conversation \<Rightarrow> ChatState \<Rightarrow> outcome" where
  "on_conversation_created c s =
     Returned ((setConversationDoc c s)\<lparr>activeConversationId := Some (c_id c)\<rparr>)"

definition on_conversation_updated :: "Conversation \<Rightarrow> ChatState \<Rightarrow> outcome" where
  "on_conversation_updated c s = Returned (setConversationDoc c s)"

definition on_conversation_archived :: "Id \<Rightarrow> ChatState \<Rightarrow> outcome" where
  "on_conversation_archived k s =
     (case conversations s k of
        None \<Rightarrow> Threw TypeError s
      | Some c \<Rightarrow> Returned (s\<lparr>conversations := (conversations s)(k \<mapsto> c\<lparr>c_status := ''archived''\<rparr>)\<rparr>))"

text \<open>
  \<^verbatim>\<open>message.created\<close>: the second \<^verbatim>\<open>setState\<close> indexes
  \<^verbatim>\<open>messagesByConversation\<close> with \<^verbatim>\<open>m.conversationId\<close>; with that key
  \<^verbatim>\<open>undefined\<close> the store merges the new array into a missing node and throws,
  after the message itself has been written.
\<close>

definition on_message_created :: "Message \<Rightarrow> ChatState \<Rightarrow> outcome" where
  "on_message_created m s =
     (let s1 = setMessageDoc m s in
      case conversationId m of
        None \<Rightarrow> Threw TypeError s1
      | Some c \<Rightarrow> Returned (appendMessageId c (m_id m) s1))"

section \<open>Tool call handlers\<close>

definition on_TOOL_CALL_START ::
  "Time \<Rightarrow> Id \<Rightarrow> Id \<Rightarrow> string \<Rightarrow> Id option \<Rightarrow> ChatState \<Rightarrow> outcome" where
  "on_TOOL_CALL_START now parentMessageId toolCallId' toolCallName p_conversationId s =
     (let s1 =
        (case getMessage s parentMessageId of
           Some existing \<Rightarrow> s
         | None \<Rightarrow>
             (let parentMessage =
                    \<lparr>m_id = parentMessageId, role = ''assistant'', content = [],
                     conversationId = or_else p_conversationId (activeConversationId s),
                     status = Completed, createdAt = Some now,
                     toolCalls = None, toolCallId = None\<rparr>;
                  s0 = putMessage parentMessageId parentMessage s
              in case conversationId parentMessage of
                   None \<Rightarrow> s0
                 | Some c \<Rightarrow> if c = [] then s0 else appendMessageId c parentMessageId s0))
      in Returned (s1\<lparr>toolCallsInProgress := (toolCallsInProgress s1)(toolCallId' \<mapsto>
            \<lparr>tp_id = toolCallId', tp_name = toolCallName, tp_args = [],
             tp_messageId = parentMessageId\<rparr>)\<rparr>))"

definition on_TOOL_CALL_ARGS :: "Id \<Rightarrow> string option \<Rightarrow> ChatState \<Rightarrow> outcome" where
  "on_TOOL_CALL_ARGS toolCallId' delta s =
     (case toolCallsInProgress s toolCallId' of
        None \<Rightarrow> Threw TypeError s
      | Some tc \<Rightarrow>
          Returned (s\<lparr>toolCallsInProgress := (toolCallsInProgress s)(toolCallId' \<mapsto>
                      tc\<lparr>tp_args := tp_args tc @ or_default delta []\<rparr>)\<rparr>))"

definition on_TOOL_CALL_END :: "Id \<Rightarrow> ChatState \<Rightarrow> outcome" where
  "on_TOOL_CALL_END toolCallId' s =
     (case toolCallsInProgress s toolCallId' of
        None \<Rightarrow> Returned s
      | Some tc \<Rightarrow>
          (let s1 =
             (case getMessage s (tp_messageId tc) of
                None \<Rightarrow> s
              | Some msg \<Rightarrow>
                  (let toolCall = \<lparr>tc_id = tp_id tc, tc_type = ''function'',
                                   tc_name = tp_name tc, tc_arguments = tp_args tc\<rparr>;
                       arr = (case toolCalls msg of None \<Rightarrow> [] | Some a \<Rightarrow> a);
                       exists = (tc_id toolCall \<in> set (map tc_id arr));
                       updated = (if exists then arr else arr @ [toolCall])
                   in putMessage (tp_messageId tc) (msg\<lparr>toolCalls := Some updated\<rparr>) s))
           in Returned (s1\<lparr>toolCallsInProgress := (toolCallsInProgress s1)(toolCallId' := None)\<rparr>)))"

text \<open>
  \<^verbatim>\<open>TOOL_CALL_RESULT\<close>: the parent is the first message, in the order of
  \<^verbatim>\<open>Object.values(state.messages)\<close>, one of whose tool calls has the id. The
  object written has every key but \<^verbatim>\<open>toolCalls\<close>.
\<close>

definition findParentMessage :: "ChatState \<Rightarrow> Id \<Rightarrow> Message option" where
  "findParentMessage s toolCallId' =
     find (\<lambda>m. case toolCalls m of None \<Rightarrow> False
                | Some tcs \<Rightarrow> toolCallId' \<in> set (map tc_id tcs))
       (map snd (messages s))"

definition on_TOOL_CALL_RESULT ::
  "Time \<Rightarrow> Id \<Rightarrow> Id \<Rightarrow> string option \<Rightarrow> string option \<Rightarrow> ChatState \<Rightarrow> outcome" where
  "on_TOOL_CALL_RESULT now messageId toolCallId' p_content p_role s =
     (let conv = or_else (case findParentMessage s toolCallId' of
                            None \<Rightarrow> None
                          | Some parent \<Rightarrow> conversationId parent)
                         (activeConversationId s);
          toolMessage = \<lparr>m_id = messageId, role = or_default p_role ''tool'',
                         content = or_default p_content [], conversationId = conv,
                         status = Completed, createdAt = Some now,
                         toolCalls = None, toolCallId = Some toolCallId'\<rparr>;
          stored = (case getMessage s messageId of
                      None \<Rightarrow> toolMessage
                    | Some prev \<Rightarrow> toolMessage\<lparr>toolCalls := toolCalls prev\<rparr>);
          s1 = putMessage messageId stored s
      in Returned (case conv of
                     None \<Rightarrow> s1
                   | Some c \<Rightarrow> if c = [] then s1 else appendMessageId c messageId s1))"

section \<open>Attachment and snapshot handlers\<close>

definition mergeStoreNode_attachment :: "Attachment \<Rightarrow> Attachment \<Rightarrow> Attachment" where
  "mergeStoreNode_attachment prev v =
     v\<lparr>att_metadata := (case att_metadata v of None \<Rightarrow> att_metadata prev | Some x \<Rightarrow> Some x)\<rparr>"

definition setAttachmentDoc :: "Attachment \<Rightarrow> ChatState \<Rightarrow> ChatState" where
  "setAttachmentDoc a s =
     s\<lparr>attachments := (attachments s)(att_id a \<mapsto>
          (case attachments s (att_id a) of
             None \<Rightarrow> a
           | Some prev \<Rightarrow> mergeStoreNode_attachment prev a))\<rparr>"

definition emptyAgentState :: ChatAgentState where
  "emptyAgentState = \<lparr>suggestedQuestions = None, ag_attachments = None\<rparr>"

text \<open>
  The dual write of \<^verbatim>\<open>attachment.uploading\<close> and \<^verbatim>\<open>attachment.available\<close>:
  the global map, then the active conversation's agent state.
\<close>

definition storeAttachment :: "Attachment \<Rightarrow> ChatState \<Rightarrow> outcome" where
  "storeAttachment a s =
     (let s1 = setAttachmentDoc a s in
      case activeConversationId s1 of
        None \<Rightarrow> Returned s1
      | Some c \<Rightarrow>
          if c = [] then Returned s1
          else
            (let prevState = (case agentStateByConversation s1 c of
                                None \<Rightarrow> emptyAgentState | Some p \<Rightarrow> p);
                 prevAtts = (case ag_attachments prevState of
                               None \<Rightarrow> Map.empty | Some m \<Rightarrow> m)
             in Returned (s1\<lparr>agentStateByConversation := (agentStateByConversation s1)(c \<mapsto>
                   prevState\<lparr>ag_attachments := Some (prevAtts(att_id a \<mapsto> a))\<rparr>)\<rparr>)))"

definition on_attachment_uploading :: "Attachment \<Rightarrow> ChatState \<Rightarrow> outcome" where
  "on_attachment_uploading a s = storeAttachment a s"

definition on_attachment_available :: "Attachment \<Rightarrow> ChatState \<Rightarrow> outcome" where
  "on_attachment_available a s = storeAttachment a s"

definition metaOrEmpty :: "(string \<rightharpoonup> MetaValue) option \<Rightarrow> (string \<rightharpoonup> MetaValue)" where
  "metaOrEmpty m = (case m of None \<Rightarrow> Map.empty | Some x \<Rightarrow> x)"

definition on_attachment_progress :: "Id \<Rightarrow> int \<Rightarrow> ChatState \<Rightarrow> outcome" where
  "on_attachment_progress fileId progress s =
     (case attachments s fileId of
        None \<Rightarrow> Returned s
      | Some a \<Rightarrow>
          Returned (s\<lparr>attachments := (attachments s)(fileId \<mapsto>
             a\<lparr>att_metadata := Some ((metaOrEmpty (att_metadata a))(''progress'' \<mapsto> MNum progress))\<rparr>)\<rparr>))"

definition markFailed :: "string option \<Rightarrow> Attachment \<Rightarrow> Attachment" where
  "markFailed err a =
     a\<lparr>att_state := AttFailed,
       att_metadata := Some ((metaOrEmpty (att_metadata a))
                               (''error'' \<mapsto> MStr (or_default err ''Upload failed'')))\<rparr>"

definition on_attachment_failed :: "Id \<Rightarrow> string option \<Rightarrow> ChatState \<Rightarrow> outcome" where
  "on_attachment_failed fileId err s =
     (let s1 = (case attachments s fileId of
                  None \<Rightarrow> s
                | Some a \<Rightarrow> s\<lparr>attachments := (attachments s)(fileId \<mapsto> markFailed err a)\<rparr>)
      in case activeConversationId s1 of
           None \<Rightarrow> Returned s1
         | Some c \<Rightarrow>
             if c = [] then Returned s1
             else
               (case agentStateByConversation s1 c of
                  None \<Rightarrow> Returned s1
                | Some ag \<Rightarrow>
                    (case ag_attachments ag of
                       None \<Rightarrow> Returned s1
                     | Some atts \<Rightarrow>
                         (case atts fileId of
                            None \<Rightarrow> Returned s1
                          | Some a \<Rightarrow>
                              Returned (s1\<lparr>agentStateByConversation :=
                                 (agentStateByConversation s1)(c \<mapsto>
                                    ag\<lparr>ag_attachments := Some (atts(fileId \<mapsto> markFailed err a))\<rparr>)\<rparr>)))))"

text \<open>\<^verbatim>\<open>{...prevState, ...p.snapshot}\<close>: the snapshot's keys win, the others stay.\<close>

definition mergeSnapshot :: "ChatAgentState \<Rightarrow> ChatAgentState \<Rightarrow> ChatAgentState" where
  "mergeSnapshot prevState snap =
     \<lparr>suggestedQuestions = (case suggestedQuestions snap of
                               None \<Rightarrow> suggestedQuestions prevState | Some q \<Rightarrow> Some q),
      ag_attachments = (case ag_attachments snap of
                          None \<Rightarrow> ag_attachments prevState | Some a \<Rightarrow> Some a)\<rparr>"

definition on_STATE_SNAPSHOT :: "Id option \<Rightarrow> ChatAgentState option \<Rightarrow> ChatState \<Rightarrow> outcome" where
  "on_STATE_SNAPSHOT p_conversationId snapshot s =
     (case or_else p_conversationId (activeConversationId s) of
        None \<Rightarrow> Returned s
      | Some c \<Rightarrow>
          if c = [] then Returned s
          else
            (case snapshot of
               None \<Rightarrow> Returned s
             | Some snap \<Rightarrow>
                 Returned (s\<lparr>agentStateByConversation := (agentStateByConversation s)(c \<mapsto>
                    mergeSnapshot (case agentStateByConversation s c of
                                     None \<Rightarrow> emptyAgentState | Some p \<Rightarrow> p) snap)\<rparr>)))"

section \<open>The event vocabulary\<close>

datatype event =
    conversation_created Conversation
  | conversation_updated Conversation
  | conversation_archived Id
  | message_created Message
  | TEXT_MESSAGE_START Id "string option" "Id option"
  | TEXT_MESSAGE_CONTENT Id "string option"
  | TEXT_MESSAGE_END Id
  | message_errored Id
  | message_canceled Id
  | TOOL_CALL_START Id Id string "Id option"
  | TOOL_CALL_ARGS Id "string option"
  | TOOL_CALL_END Id
  | TOOL_CALL_RESULT Id Id "string option" "string option"
  | attachment_uploading Attachment
  | attachment_progress Id int
  | attachment_available Attachment
  | attachment_failed Id "string option"
  | STATE_SNAPSHOT "Id option" "ChatAgentState option"

text \<open>
  Payload fields, in constructor order: \<^verbatim>\<open>TEXT_MESSAGE_START\<close> messageId, role,
  conversationId; \<^verbatim>\<open>TOOL_CALL_START\<close> parentMessageId, toolCallId,
  toolCallName, conversationId; \<^verbatim>\<open>TOOL_CALL_RESULT\<close> messageId, toolCallId,
  content, role; \<^verbatim>\<open>attachment.failed\<close> fileId, error. The first argument of
  \<open>handle\<close> is the clock reading at delivery.
\<close>

fun handle :: "Time \<Rightarrow> event \<Rightarrow> ChatState \<Rightarrow> outcome" where
  "handle now (conversation_created c) s = on_conversation_created c s"
| "handle now (conversation_updated c) s = on_conversation_updated c s"
| "handle now (conversation_archived k) s = on_conversation_archived k s"
| "handle now (message_created m) s = on_message_created m s"
| "handle now (TEXT_MESSAGE_START k r c) s = on_TEXT_MESSAGE_START now k r c s"
| "handle now (TEXT_MESSAGE_CONTENT k d) s = on_TEXT_MESSAGE_CONTENT k d s"
| "handle now (TEXT_MESSAGE_END k) s = on_TEXT_MESSAGE_END k s"
| "handle now (message_errored k) s = on_message_errored k s"
| "handle now (message_canceled k) s = on_message_canceled k s"
| "handle now (TOOL_CALL_START p t n c) s = on_TOOL_CALL_START now p t n c s"
| "handle now (TOOL_CALL_ARGS t d) s = on_TOOL_CALL_ARGS t d s"
| "handle now (TOOL_CALL_END t) s = on_TOOL_CALL_END t s"
| "handle now (TOOL_CALL_RESULT k t c r) s = on_TOOL_CALL_RESULT now k t c r s"
| "handle now (attachment_uploading a) s = on_attachment_uploading a s"
| "handle now (attachment_progress f p) s = on_attachment_progress f p s"
| "handle now (attachment_available a) s = on_attachment_available a s"
| "handle now (attachment_failed f e) s = on_attachment_failed f e s"
| "handle now (STATE_SNAPSHOT c snap) s = on_STATE_SNAPSHOT c snap s"

text \<open>
  A sequence of deliveries, each with its clock reading. A throwing handler ends the
  run: what the emitter does with the exception is outside the store.
\<close>

fun deliver :: "(Time \<times> event) list \<Rightarrow> ChatState \<Rightarrow> outcome" where
  "deliver [] s = Returned s"
| "deliver ((now, e) # es) s = andThen (handle now e s) (deliver es)"

text \<open>The state \<^verbatim>\<open>createStore\<close> starts from, given what persistence returned.\<close>

definition initialState :: "(Id \<rightharpoonup> ChatAgentState) option \<Rightarrow> ChatState" where
  "initialState persistedAgentState =
     \<lparr>revision = ''0'', conversations = Map.empty, messages = [],
      attachments = Map.empty, messagesByConversation = Map.empty,
      streaming = Map.empty, toolCallsInProgress = Map.empty,
      agentStateByConversation = (case persistedAgentState of
                                    None \<Rightarrow> Map.empty | Some m \<Rightarrow> m),
      activeConversationId = None\<rparr>"

section \<open>Imperative methods\<close>

text \<open>
  \<^verbatim>\<open>loadConversations\<close>, from the point where \<^verbatim>\<open>client.listConversations()\<close>
  has resolved to \<open>cs\<close>: the list is folded into a fresh object, a later entry
  overwriting an earlier one with the same id, and the object is written with
  \<^verbatim>\<open>setState('conversations', conversationsMap)\<close>, which merges it into the
  object already there.
\<close>

definition conversationsMap :: "Conversation list \<Rightarrow> (Id \<rightharpoonup> Conversation)" where
  "conversationsMap cs = foldl (\<lambda>acc c. acc(c_id c \<mapsto> c)) Map.empty cs"

definition loadConversations :: "Conversation list \<Rightarrow> ChatState \<Rightarrow> ChatState" where
  "loadConversations cs s = s\<lparr>conversations := conversations s ++ conversationsMap cs\<rparr>"

text \<open>
  \<^verbatim>\<open>setActiveConversation\<close>: \<^verbatim>\<open>setState('attachments', {})\<close> merges the empty
  object into the attachment map.
\<close>

definition setActiveConversation :: "Id \<Rightarrow> ChatState \<Rightarrow> ChatState" where
  "setActiveConversation k s =
     (let s1 = s\<lparr>activeConversationId := Some k\<rparr>
      in s1\<lparr>attachments := attachments s1 ++ Map.empty\<rparr>)"

subsection \<open>loadMessages\<close>

text \<open>
  The store proper: the reactive state and the two sets that guard \<^verbatim>\<open>loadMessages\<close>.
\<close>

record AgUiStore =
  state :: ChatState
  loadedConversations :: "Id set"
  loadingConversations :: "Id set"

text \<open>
  \<^verbatim>\<open>loadMessages\<close> is asynchronous with one suspension point, the call of
  \<^verbatim>\<open>client.getMessages\<close>. It is modelled in two halves: the call up to the
  suspension, and the continuation, which runs on the store as it is when the fetch
  settles. What is read before the fetch is only logged.
\<close>

datatype loadStep = Skipped AgUiStore | AwaitingFetch AgUiStore

definition loadMessages_call :: "Id \<Rightarrow> bool \<Rightarrow> AgUiStore \<Rightarrow> loadStep" where
  "loadMessages_call c force st =
     (if c \<in> loadingConversations st then Skipped st
      else if \<not> force \<and> c \<in> loadedConversations st then Skipped st
      else AwaitingFetch (st\<lparr>loadingConversations := insert c (loadingConversations st)\<rparr>))"

definition isPreserved :: "Message \<Rightarrow> bool" where
  "isPreserved m = (status m = Streaming \<or> prefix ''msg_'' (m_id m))"

definition currentMessages :: "ChatState \<Rightarrow> Id \<Rightarrow> Message list" where
  "currentMessages s c =
     List.map_filter (getMessage s)
       (case messagesByConversation s c of None \<Rightarrow> [] | Some ids \<Rightarrow> ids)"

text \<open>\<^verbatim>\<open>new Date(m.createdAt || 0).getTime()\<close>\<close>

definition msgTime :: "Message \<Rightarrow> Time" where
  "msgTime m = (case createdAt m of None \<Rightarrow> 0 | Some t \<Rightarrow> t)"

text \<open>
  The list that is sorted: the preserved local messages the server did not return, then
  the server's messages. \<^verbatim>\<open>Array.prototype.sort\<close> is stable, and so is
  \<open>sort_key\<close>.
\<close>

definition finalMessages :: "ChatState \<Rightarrow> Id \<Rightarrow> Message list \<Rightarrow> Message list" where
  "finalMessages s c msgs =
     (let preserveMessages = filter isPreserved (currentMessages s c);
          serverIds = set (map m_id msgs)
      in sort_key msgTime (filter (\<lambda>m. m_id m \<notin> serverIds) preserveMessages @ msgs))"

definition carryOverIds :: "ChatState \<Rightarrow> Id list \<Rightarrow> Id list \<Rightarrow> Id list" where
  "carryOverIds s messageIds prev =
     map m_id (filter (\<lambda>m. isPreserved m \<and> m_id m \<notin> set messageIds)
                 (List.map_filter (getMessage s) prev))"

text \<open>\<^verbatim>\<open>finalMessages.forEach(m => setState('messages', m.id, m))\<close>\<close>

definition writeAll :: "Message list \<Rightarrow> ChatState \<Rightarrow> ChatState" where
  "writeAll xs s = foldl (\<lambda>acc m. setMessageDoc m acc) s xs"

definition reconcileMessages :: "Id \<Rightarrow> Message list \<Rightarrow> ChatState \<Rightarrow> ChatState" where
  "reconcileMessages c msgs s =
     (let final = finalMessages s c msgs;
          s1 = writeAll final s;
          messageIds = map m_id final;
          prev = (case messagesByConversation s1 c of None \<Rightarrow> [] | Some a \<Rightarrow> a)
      in s1\<lparr>messagesByConversation := (messagesByConversation s1)(c \<mapsto>
              messageIds @ carryOverIds s1 messageIds prev)\<rparr>)"

definition loadMessages_resolved :: "Id \<Rightarrow> Message list \<Rightarrow> AgUiStore \<Rightarrow> AgUiStore" where
  "loadMessages_resolved c msgs st =
     st\<lparr>state := reconcileMessages c msgs (state st),
        loadedConversations := insert c (loadedConversations st),
        loadingConversations := loadingConversations st - {c}\<rparr>"

text \<open>A rejected fetch: only the \<^verbatim>\<open>finally\<close> block runs.\<close>

definition loadMessages_rejected :: "Id \<Rightarrow> AgUiStore \<Rightarrow> AgUiStore" where
  "loadMessages_rejected c st = st\<lparr>loadingConversations := loadingConversations st - {c}\<rparr>"

subsection \<open>The store over time\<close>

text \<open>
  What can happen to a store: an event is delivered, \<^verbatim>\<open>loadMessages\<close> is called, a
  pending fetch resolves or is rejected. An exception thrown by a handler goes to the
  emitter and the store stays as the handler left it. \<open>run\<close> also counts the
  \<^verbatim>\<open>client.getMessages\<close> requests issued.
\<close>

datatype action =
    Deliver Time event
  | CallLoadMessages Id bool
  | FetchResolved Id "Message list"
  | FetchRejected Id

fun stateAfter :: "outcome \<Rightarrow> ChatState" where
  "stateAfter (Returned s) = s"
| "stateAfter (Threw e s) = s"

fun run :: "action list \<Rightarrow> AgUiStore \<Rightarrow> nat \<Rightarrow> AgUiStore \<times> nat" where
  "run [] st n = (st, n)"
| "run (Deliver t e # as) st n = run as (st\<lparr>state := stateAfter (handle t e (state st))\<rparr>) n"
| "run (CallLoadMessages c force # as) st n =
     (case loadMessages_call c force st of
        Skipped st' \<Rightarrow> run as st' n
      | AwaitingFetch st' \<Rightarrow> run as st' (Suc n))"
| "run (FetchResolved c msgs # as) st n = run as (loadMessages_resolved c msgs st) n"
| "run (FetchRejected c # as) st n = run as (loadMessages_rejected c st) n"

fun settles :: "Id \<Rightarrow> action \<Rightarrow> bool" where
  "settles c (FetchResolved c' msgs) = (c' = c)"
| "settles c (FetchRejected c') = (c' = c)"
| "settles c (Deliver t e) = False"
| "settles c (CallLoadMessages c' force) = False"

definition newStore :: "(Id \<rightharpoonup> ChatAgentState) option \<Rightarrow> AgUiStore" where
  "newStore persistedAgentState =
     \<lparr>state = initialState persistedAgentState,
      loadedConversations = {}, loadingConversations = {}\<rparr>"

section \<open>Persistence of the agent state\<close>

text \<open>
  \<^verbatim>\<open>persistence.ts\<close> keeps one record under one key of \<^verbatim>\<open>localStorage\<close>.
  \<^verbatim>\<open>JSON.stringify\<close> and \<^verbatim>\<open>JSON.parse\<close> are builtins of the runtime and enter
  as parameters (\<open>None\<close>: \<^verbatim>\<open>JSON.parse\<close> threw). \<^verbatim>\<open>localStorage.setItem\<close>
  throws \<^verbatim>\<open>QuotaExceededError\<close> when the value does not fit; \<open>quota\<close> is the room
  the browser has for it. The agent-state map is the JSON value it serialises to.
\<close>

datatype json = JNull | JBool bool | JNum int | JStr string | JArr "json list"
  | JObj "(string \<times> json) list"

record LocalStorage =
  items :: "string \<rightharpoonup> string"
  quota :: nat

datatype DOMException = QuotaExceededError

definition setItem :: "string \<Rightarrow> string \<Rightarrow> LocalStorage \<Rightarrow> DOMException + LocalStorage" where
  "setItem k v st =
     (if quota st < length v then Inl QuotaExceededError
      else Inr (st\<lparr>items := (items st)(k \<mapsto> v)\<rparr>))"

definition STORAGE_KEY :: string where
  "STORAGE_KEY = ''solid-ag-chat:agentState''"

definition STORAGE_VERSION :: int where
  "STORAGE_VERSION = 1"

definition persistedData :: "int \<Rightarrow> Time \<Rightarrow> json \<Rightarrow> json" where
  "persistedData v now d = JObj [(''version'', JNum v), (''timestamp'', JNum now), (''data'', d)]"

definition saveAgentState :: "(json \<Rightarrow> string) \<Rightarrow> Time \<Rightarrow> json \<Rightarrow> LocalStorage \<Rightarrow> LocalStorage" where
  "saveAgentState stringify now agentState st =
     (let serialized = stringify (persistedData STORAGE_VERSION now agentState)
      in case setItem STORAGE_KEY serialized st of
           Inl e \<Rightarrow> st
         | Inr st' \<Rightarrow> st')"

text \<open>
  \<^verbatim>\<open>loadAgentState\<close>; \<open>None\<close> is \<^verbatim>\<open>null\<close>. Everything thrown inside is caught
  and turned into \<^verbatim>\<open>null\<close>: \<^verbatim>\<open>parsed.version\<close> on \<^verbatim>\<open>null\<close>, and
  \<^verbatim>\<open>Object.keys(parsed.data)\<close> in the log line when \<^verbatim>\<open>data\<close> is missing or
  \<^verbatim>\<open>null\<close>.
\<close>

definition loadAgentState :: "(string \<Rightarrow> json option) \<Rightarrow> LocalStorage \<Rightarrow> json option" where
  "loadAgentState parse st =
     (case items st STORAGE_KEY of
        None \<Rightarrow> None
      | Some stored \<Rightarrow>
          if stored = [] then None
          else
            (case parse stored of
               None \<Rightarrow> None
             | Some (JObj kvs) \<Rightarrow>
                 if map_of kvs ''version'' \<noteq> Some (JNum STORAGE_VERSION) then None
                 else (case map_of kvs ''data'' of
                         None \<Rightarrow> None
                       | Some JNull \<Rightarrow> None
                       | Some d \<Rightarrow> Some d)
             | Some other \<Rightarrow> None))"

section \<open>Vocabulary of the statements\<close>

text \<open>
  A run of content events for one message, each with its clock reading, and the text
  its deltas add up to (\<^verbatim>\<open>delta || ''\<close> for each).
\<close>

definition contentEvents :: "Id \<Rightarrow> (Time \<times> string option) list \<Rightarrow> (Time \<times> event) list" where
  "contentEvents m ds = map (\<lambda>(t, d). (t, TEXT_MESSAGE_CONTENT m d)) ds"

definition argsEvents :: "Id \<Rightarrow> (Time \<times> string option) list \<Rightarrow> (Time \<times> event) list" where
  "argsEvents tc ds = map (\<lambda>(t, d). (t, TOOL_CALL_ARGS tc d)) ds"

definition deltaText :: "(Time \<times> string option) list \<Rightarrow> string" where
  "deltaText ds = concat (map (\<lambda>(t, d). or_default d []) ds)"

definition isTerminal :: "MessageStatus \<Rightarrow> bool" where
  "isTerminal st = (st = Completed \<or> st = Errored \<or> st = Canceled)"

text \<open>The tool calls recorded on a message, none when the message or the list is missing.\<close>

definition messageToolCalls :: "ChatState \<Rightarrow> Id \<Rightarrow> ToolCall list" where
  "messageToolCalls s p =
     (case getMessage s p of
        None \<Rightarrow> []
      | Some msg \<Rightarrow> (case toolCalls msg of None \<Rightarrow> [] | Some a \<Rightarrow> a))"

text \<open>The attachment map of the active conversation's agent state, empty when there is none.\<close>

definition activeAttachments :: "ChatState \<Rightarrow> (Id \<rightharpoonup> Attachment)" where
  "activeAttachments s =
     (case activeConversationId s of
        None \<Rightarrow> Map.empty
      | Some c \<Rightarrow>
          (case agentStateByConversation s c of
             None \<Rightarrow> Map.empty
           | Some ag \<Rightarrow> (case ag_attachments ag of None \<Rightarrow> Map.empty | Some atts \<Rightarrow> atts)))"

text \<open>
  The events that can write the content of a stored message \<open>m\<close>: a start, a legacy
  \<^verbatim>\<open>message.created\<close> or a tool result carrying its id, and an end or a cancel for it
  while its streaming buffer holds text.
\<close>

fun rewritesContent :: "event \<Rightarrow> Id \<Rightarrow> ChatState \<Rightarrow> bool" where
  "rewritesContent (TEXT_MESSAGE_START k r c) m s = (k = m)"
| "rewritesContent (message_created d) m s = (m_id d = m)"
| "rewritesContent (TOOL_CALL_RESULT k t c r) m s = (k = m)"
| "rewritesContent (TEXT_MESSAGE_END k) m s = (k = m \<and> truthy (map_option s_text (streaming s m)))"
| "rewritesContent (message_canceled k) m s = (k = m \<and> truthy (map_option s_text (streaming s m)))"
| "rewritesContent e m s = False"

definition contentOf :: "ChatState \<Rightarrow> Id \<Rightarrow> string option" where
  "contentOf s m = map_option content (getMessage s m)"

text \<open>
  The reconciliation rule in the words of the specification: the local messages of the
  conversation that are still streaming or carry the client prefix, and whose id the
  server did not return.
\<close>

definition retainedLocal :: "ChatState \<Rightarrow> Id \<Rightarrow> Message list \<Rightarrow> Message list" where
  "retainedLocal s c msgs =
     filter (\<lambda>m. (status m = Streaming \<or> prefix ''msg_'' (m_id m))
                  \<and> m_id m \<notin> set (map m_id msgs))
       (currentMessages s c)"

subsection \<open>Example data\<close>

definition att1 :: Attachment where
  "att1 = \<lparr>att_id = ''f1'', att_name = ''a.txt'', att_mime = ''text/plain'', att_size = 3,
           att_upload_url = ''https://u/f1'', att_state = AttUploading, att_metadata = None\<rparr>"

definition convOld :: Conversation where
  "convOld = \<lparr>c_id = ''old'', title = Some ''Old'', c_status = ''active'', c_metadata = None\<rparr>"

definition convNew :: Conversation where
  "convNew = \<lparr>c_id = ''new'', title = Some ''New'', c_status = ''active'', c_metadata = None\<rparr>"

text \<open>Two stores reached from the initial one: a message streamed to completion, and one
  that errored while its buffer still held text.\<close>

definition helloCompleted :: ChatState where
  "helloCompleted =
     stateAfter (deliver [(1, TEXT_MESSAGE_START ''m1'' None (Some ''c1'')),
                          (2, TEXT_MESSAGE_CONTENT ''m1'' (Some ''hi'')),
                          (3, TEXT_MESSAGE_END ''m1'')] (initialState None))"

definition helloErrored :: ChatState where
  "helloErrored =
     stateAfter (deliver [(1, TEXT_MESSAGE_START ''m1'' None (Some ''c1'')),
                          (2, TEXT_MESSAGE_CONTENT ''m1'' (Some ''hi'')),
                          (3, message_errored ''m1'')] (initialState None))"

text \<open>
  A store with a load in flight for \<open>c1\<close>, holding a completed message the server no
  longer has, a streaming message and an optimistic one; and a server answer that
  contains the streaming message's id.
\<close>

definition mkMessage :: "Id \<Rightarrow> string \<Rightarrow> MessageStatus \<Rightarrow> Time \<Rightarrow> Message" where
  "mkMessage k txt st t =
     \<lparr>m_id = k, role = ''assistant'', content = txt, conversationId = Some ''c1'',
      status = st, createdAt = Some t, toolCalls = None, toolCallId = None\<rparr>"

definition localStore :: AgUiStore where
  "localStore =
     \<lparr>state = (initialState None)\<lparr>
         messages := [(''old'', mkMessage ''old'' ''gone'' Completed 1),
                      (''b'', mkMessage ''b'' ''par'' Streaming 5),
                      (''msg_1'', mkMessage ''msg_1'' ''draft'' Pending 30)],
         messagesByConversation := [''c1'' \<mapsto> [''old'', ''b'', ''msg_1'']]\<rparr>,
      loadedConversations = {}, loadingConversations = {''c1''}\<rparr>"

definition serverMessages :: "Message list" where
  "serverMessages = [mkMessage ''b'' ''partial and more'' Completed 20,
                     mkMessage ''a'' ''first'' Completed 10]"

text \<open>An agent-state map with one conversation, as the JSON value it serialises to.\<close>

definition exampleAgentState :: json where
  "exampleAgentState =
     JObj [(''c1'', JObj [(''suggestedQuestions'', JObj [(''questions'', JArr [JStr ''Why?''])])])]"

section \<open>Basic facts about the store\<close>

lemma getMessage_putMessage:
  "getMessage (putMessage k m s) k' = (if k' = k then Some m else getMessage s k')"
  by (simp add: getMessage_def putMessage_def update_conv')

lemma andThen_assoc: "andThen (andThen x f) g = andThen x (\<lambda>s. andThen (f s) g)"
  by (cases x) simp_all

lemma deliver_append: "deliver (xs @ ys) s = andThen (deliver xs s) (deliver ys)"
proof (induction xs arbitrary: s)
  case Nil
  show ?case by simp
next
  case (Cons x xs)
  obtain t e where x: "x = (t, e)" by (cases x)
  have "deliver (xs @ ys) = (\<lambda>s. andThen (deliver xs s) (deliver ys))"
    by (rule ext) (rule Cons.IH)
  then show ?case
    by (simp add: x andThen_assoc)
qed

lemma deliver_contentEvents:
  "streaming s m = Some \<lparr>s_text = buf\<rparr> \<Longrightarrow>
   deliver (contentEvents m ds) s =
     Returned (s\<lparr>streaming := (streaming s)(m \<mapsto> \<lparr>s_text = buf @ deltaText ds\<rparr>)\<rparr>)"
proof (induction ds arbitrary: s buf)
  case Nil
  then show ?case
    by (simp add: contentEvents_def deltaText_def fun_upd_idem)
next
  case (Cons d ds)
  obtain t x where d: "d = (t, x)" by (cases d)
  let ?s1 = "s\<lparr>streaming := (streaming s)(m \<mapsto> \<lparr>s_text = buf @ or_default x []\<rparr>)\<rparr>"
  have step: "handle t (TEXT_MESSAGE_CONTENT m x) s = Returned ?s1"
    using Cons.prems by (simp add: on_TEXT_MESSAGE_CONTENT_def)
  have "streaming ?s1 m = Some \<lparr>s_text = buf @ or_default x []\<rparr>" by simp
  from Cons.IH[OF this] have rest:
    "deliver (contentEvents m ds) ?s1 =
       Returned (?s1\<lparr>streaming := (streaming ?s1)(m \<mapsto> \<lparr>s_text = (buf @ or_default x []) @ deltaText ds\<rparr>)\<rparr>)" .
  have unfold: "deliver (contentEvents m (d # ds)) s = deliver (contentEvents m ds) ?s1"
    using step by (simp add: contentEvents_def d)
  have same: "?s1\<lparr>streaming := (streaming ?s1)(m \<mapsto> \<lparr>s_text = (buf @ or_default x []) @ deltaText ds\<rparr>)\<rparr>
      = s\<lparr>streaming := (streaming s)(m \<mapsto> \<lparr>s_text = buf @ deltaText (d # ds)\<rparr>)\<rparr>"
    by (simp add: d deltaText_def)
  show ?case
    unfolding unfold rest same ..
qed

lemma getMessage_streaming_update [simp]:
  "getMessage (s\<lparr>streaming := x\<rparr>) k = getMessage s k"
  by (simp add: getMessage_def)

lemma getMessage_toolCallsInProgress_update [simp]:
  "getMessage (s\<lparr>toolCallsInProgress := x\<rparr>) k = getMessage s k"
  by (simp add: getMessage_def)

lemma getMessage_messagesByConversation_update [simp]:
  "getMessage (s\<lparr>messagesByConversation := x\<rparr>) k = getMessage s k"
  by (simp add: getMessage_def)

lemma getMessage_appendMessageId [simp]:
  "getMessage (appendMessageId c k' s) k = getMessage s k"
  by (simp add: appendMessageId_def Let_def)

lemma putMessage_fields [simp]:
  "streaming (putMessage k m s) = streaming s"
  "toolCallsInProgress (putMessage k m s) = toolCallsInProgress s"
  "messagesByConversation (putMessage k m s) = messagesByConversation s"
  "conversations (putMessage k m s) = conversations s"
  "attachments (putMessage k m s) = attachments s"
  "agentStateByConversation (putMessage k m s) = agentStateByConversation s"
  "activeConversationId (putMessage k m s) = activeConversationId s"
  "revision (putMessage k m s) = revision s"
  by (simp_all add: putMessage_def)

lemma appendMessageId_fields [simp]:
  "streaming (appendMessageId c k s) = streaming s"
  "toolCallsInProgress (appendMessageId c k s) = toolCallsInProgress s"
  "messages (appendMessageId c k s) = messages s"
  "conversations (appendMessageId c k s) = conversations s"
  "attachments (appendMessageId c k s) = attachments s"
  "agentStateByConversation (appendMessageId c k s) = agentStateByConversation s"
  "activeConversationId (appendMessageId c k s) = activeConversationId s"
  "revision (appendMessageId c k s) = revision s"
  by (simp_all add: appendMessageId_def Let_def)

lemma putMessage_putMessage [simp]:
  "putMessage k m' (putMessage k m s) = putMessage k m' s"
  by (simp add: putMessage_def)

lemma andThen_deliver_Nil [simp]: "andThen x (deliver []) = x"
  by (cases x) simp_all

lemma updateMessage_Some:
  "getMessage s k = Some m \<Longrightarrow> updateMessage k f s = Returned (putMessage k (f m) s)"
  by (simp add: updateMessage_def)

lemma updateMessage_None:
  "getMessage s k = None \<Longrightarrow> updateMessage k f s = Threw TypeError s"
  by (simp add: updateMessage_def)

lemma on_TEXT_MESSAGE_START_result:
  "\<exists>s1 msg. on_TEXT_MESSAGE_START now m r c s = Returned s1
     \<and> getMessage s1 m = Some msg \<and> content msg = [] \<and> status msg = Streaming
     \<and> streaming s1 m = Some \<lparr>s_text = []\<rparr>"
  by (simp add: on_TEXT_MESSAGE_START_def Let_def getMessage_putMessage
        split: option.split)

lemma on_TEXT_MESSAGE_END_result:
  assumes "getMessage s m = Some msg" and "streaming s m = Some \<lparr>s_text = buf\<rparr>"
  shows "on_TEXT_MESSAGE_END m s =
           Returned (putMessage m (msg\<lparr>content := (if buf = [] then content msg else buf),
                                      status := Completed\<rparr>)
                       (s\<lparr>streaming := (streaming s)(m := None)\<rparr>))"
proof (cases "buf = []")
  case True
  then show ?thesis
    using assms by (simp add: on_TEXT_MESSAGE_END_def truthy_def updateMessage_Some)
next
  case False
  then show ?thesis
    using assms
    by (simp add: on_TEXT_MESSAGE_END_def truthy_def or_default_def updateMessage_Some
          getMessage_putMessage)
      (simp add: putMessage_def)
qed

section \<open>Streaming a text message\<close>

text \<open>
  C1. Whatever the store holds and whatever the payload's role and conversation are,
  delivering \<^verbatim>\<open>TEXT_MESSAGE_START\<close> for \<open>m\<close>, then any number of
  \<^verbatim>\<open>TEXT_MESSAGE_CONTENT\<close> events for \<open>m\<close>, then \<^verbatim>\<open>TEXT_MESSAGE_END\<close> for
  \<open>m\<close> throws nowhere and ends in a state where the message \<open>m\<close> has the
  concatenation of the deltas as its content and the status completed, and where no
  streaming buffer is left for \<open>m\<close>.
\<close>

theorem text_stream_round_trip:
  "\<exists>s'. deliver ((t0, TEXT_MESSAGE_START m r c) # contentEvents m ds @ [(t1, TEXT_MESSAGE_END m)]) s
            = Returned s'
        \<and> map_option content (getMessage s' m) = Some (deltaText ds)
        \<and> map_option status (getMessage s' m) = Some Completed
        \<and> streaming s' m = None"
proof -
  obtain s1 msg where start: "on_TEXT_MESSAGE_START t0 m r c s = Returned s1"
    and msg: "getMessage s1 m = Some msg" and c0: "content msg = []"
    and buf1: "streaming s1 m = Some \<lparr>s_text = []\<rparr>"
    using on_TEXT_MESSAGE_START_result by blast
  let ?s2 = "s1\<lparr>streaming := (streaming s1)(m \<mapsto> \<lparr>s_text = [] @ deltaText ds\<rparr>)\<rparr>"
  have mid: "deliver (contentEvents m ds) s1 = Returned ?s2"
    by (rule deliver_contentEvents[OF buf1])
  have g2: "getMessage ?s2 m = Some msg"
    using msg by simp
  have b2: "streaming ?s2 m = Some \<lparr>s_text = deltaText ds\<rparr>"
    by simp
  note fin = on_TEXT_MESSAGE_END_result[OF g2 b2]
  have run: "deliver ((t0, TEXT_MESSAGE_START m r c) # contentEvents m ds @ [(t1, TEXT_MESSAGE_END m)]) s
      = on_TEXT_MESSAGE_END m ?s2"
    by (simp add: start deliver_append mid)
  show ?thesis
    unfolding run fin using c0
    by (simp add: getMessage_putMessage)
qed

theorem text_stream_round_trip_witness:
  "\<exists>s'. deliver [(1, TEXT_MESSAGE_START ''m1'' None (Some ''c1'')),
                  (2, TEXT_MESSAGE_CONTENT ''m1'' (Some ''Hel'')),
                  (3, TEXT_MESSAGE_CONTENT ''m1'' (Some ''lo'')),
                  (4, TEXT_MESSAGE_END ''m1'')] (initialState None) = Returned s'
        \<and> map_option content (getMessage s' ''m1'') = Some ''Hello''
        \<and> map_option status (getMessage s' ''m1'') = Some Completed
        \<and> streaming s' ''m1'' = None"
  using text_stream_round_trip[of 1 "''m1''" None "Some ''c1''"
      "[(2, Some ''Hel''), (3, Some ''lo'')]" 4 "initialState None"]
  by (simp add: contentEvents_def deltaText_def or_default_def)

section \<open>Cancelling a streaming message\<close>

text \<open>
  C3. When message \<open>m\<close> is in the store and a streaming buffer with non-empty text
  exists for it, the cancel event returns normally, having written the buffer's text
  into the message's content and then set its status to canceled: the store afterwards
  differs from the one before only in that message, whose content is the partial text and
  whose status is canceled.
\<close>

theorem cancel_keeps_partial_text:
  assumes "getMessage s m = Some msg" and "streaming s m = Some b" and "s_text b \<noteq> []"
  shows "handle now (message_canceled m) s
           = Returned (putMessage m (msg\<lparr>content := s_text b, status := Canceled\<rparr>) s)
       \<and> map_option content (getMessage (stateAfter (handle now (message_canceled m) s)) m)
           = Some (s_text b)
       \<and> map_option status (getMessage (stateAfter (handle now (message_canceled m) s)) m)
           = Some Canceled"
proof -
  have flush: "updateMessage m (\<lambda>x. x\<lparr>content := s_text b\<rparr>) s
                 = Returned (putMessage m (msg\<lparr>content := s_text b\<rparr>) s)"
    using assms(1) by (rule updateMessage_Some)
  have mark: "updateMessage m (\<lambda>x. x\<lparr>status := Canceled\<rparr>) (putMessage m (msg\<lparr>content := s_text b\<rparr>) s)
                 = Returned (putMessage m (msg\<lparr>content := s_text b, status := Canceled\<rparr>) s)"
    by (simp add: updateMessage_Some[where m = "msg\<lparr>content := s_text b\<rparr>"] getMessage_putMessage)
  have "on_message_canceled m s
          = Returned (putMessage m (msg\<lparr>content := s_text b, status := Canceled\<rparr>) s)"
    using assms(2,3) by (simp add: on_message_canceled_def truthy_def or_default_def flush mark)
  then show ?thesis
    by (simp add: getMessage_putMessage)
qed

theorem cancel_keeps_partial_text_witness:
  "\<exists>s. deliver [(1, TEXT_MESSAGE_START ''m1'' None (Some ''c1'')),
                 (2, TEXT_MESSAGE_CONTENT ''m1'' (Some ''ab''))] (initialState None) = Returned s
       \<and> map_option s_text (streaming s ''m1'') = Some ''ab''
       \<and> map_option content (getMessage (stateAfter (handle 3 (message_canceled ''m1'') s)) ''m1'')
           = Some ''ab''
       \<and> map_option status (getMessage (stateAfter (handle 3 (message_canceled ''m1'') s)) ''m1'')
           = Some Canceled"
proof -
  let ?msg = "\<lparr>m_id = ''m1'', role = ''assistant'', content = [], conversationId = Some ''c1'',
               status = Streaming, createdAt = Some 1, toolCalls = None, toolCallId = None\<rparr>"
  let ?s = "(initialState None)\<lparr>messages := [(''m1'', ?msg)],
              messagesByConversation := [''c1'' \<mapsto> [''m1'']],
              streaming := [''m1'' \<mapsto> \<lparr>s_text = ''ab''\<rparr>]\<rparr>"
  have run: "deliver [(1, TEXT_MESSAGE_START ''m1'' None (Some ''c1'')),
                 (2, TEXT_MESSAGE_CONTENT ''m1'' (Some ''ab''))] (initialState None) = Returned ?s"
    by (simp add: on_TEXT_MESSAGE_START_def on_TEXT_MESSAGE_CONTENT_def initialState_def
          or_default_def or_else_def truthy_def getMessage_def putMessage_def appendMessageId_def)
  have g: "getMessage ?s ''m1'' = Some ?msg" by (simp add: getMessage_def)
  have b: "streaming ?s ''m1'' = Some \<lparr>s_text = ''ab''\<rparr>" by simp
  have n: "s_text \<lparr>s_text = ''ab''\<rparr> \<noteq> []" by simp
  note th = cancel_keeps_partial_text[OF g b n, of 3]
  show ?thesis
    apply (rule exI[of _ ?s])
    apply (intro conjI)
       apply (rule run)
      apply simp
    using th apply (simp add: getMessage_putMessage)
    using th apply (simp add: getMessage_putMessage)
    done
qed

section \<open>Tool calls\<close>

lemma messageToolCalls_toolCallsInProgress_update [simp]:
  "messageToolCalls (s\<lparr>toolCallsInProgress := x\<rparr>) p = messageToolCalls s p"
  by (simp add: messageToolCalls_def)

lemma messageToolCalls_putMessage:
  "messageToolCalls (putMessage k m s) k
     = (case toolCalls m of None \<Rightarrow> [] | Some a \<Rightarrow> a)"
  by (simp add: messageToolCalls_def getMessage_putMessage)

lemma on_TOOL_CALL_START_result:
  "\<exists>s1 msg1. on_TOOL_CALL_START now p tc nm conv s = Returned s1
     \<and> getMessage s1 p = Some msg1
     \<and> messageToolCalls s1 p = messageToolCalls s p
     \<and> toolCallsInProgress s1 tc
          = Some \<lparr>tp_id = tc, tp_name = nm, tp_args = [], tp_messageId = p\<rparr>"
  by (simp add: on_TOOL_CALL_START_def Let_def getMessage_putMessage messageToolCalls_def
        split: option.split)

lemma deliver_argsEvents:
  "toolCallsInProgress s tc = Some e \<Longrightarrow>
   deliver (argsEvents tc ds) s =
     Returned (s\<lparr>toolCallsInProgress :=
                  (toolCallsInProgress s)(tc \<mapsto> e\<lparr>tp_args := tp_args e @ deltaText ds\<rparr>)\<rparr>)"
proof (induction ds arbitrary: s e)
  case Nil
  then show ?case
    by (simp add: argsEvents_def deltaText_def fun_upd_idem)
next
  case (Cons d ds)
  obtain t x where d: "d = (t, x)" by (cases d)
  let ?ea = "e\<lparr>tp_args := tp_args e @ or_default x []\<rparr>"
  let ?sa = "s\<lparr>toolCallsInProgress := (toolCallsInProgress s)(tc \<mapsto> ?ea)\<rparr>"
  have step: "handle t (TOOL_CALL_ARGS tc x) s = Returned ?sa"
    using Cons.prems by (simp add: on_TOOL_CALL_ARGS_def)
  have "toolCallsInProgress ?sa tc = Some ?ea" by simp
  from Cons.IH[OF this] have rest:
    "deliver (argsEvents tc ds) ?sa =
       Returned (?sa\<lparr>toolCallsInProgress :=
          (toolCallsInProgress ?sa)(tc \<mapsto> ?ea\<lparr>tp_args := tp_args ?ea @ deltaText ds\<rparr>)\<rparr>)" .
  have unfold: "deliver (argsEvents tc (d # ds)) s = deliver (argsEvents tc ds) ?sa"
    using step by (simp add: argsEvents_def d)
  have same: "?sa\<lparr>toolCallsInProgress :=
          (toolCallsInProgress ?sa)(tc \<mapsto> ?ea\<lparr>tp_args := tp_args ?ea @ deltaText ds\<rparr>)\<rparr>
      = s\<lparr>toolCallsInProgress :=
          (toolCallsInProgress s)(tc \<mapsto> e\<lparr>tp_args := tp_args e @ deltaText (d # ds)\<rparr>)\<rparr>"
    by (simp add: d deltaText_def)
  show ?case
    unfolding unfold rest same ..
qed

lemma on_TOOL_CALL_END_result:
  assumes "toolCallsInProgress s tc = Some e" and "getMessage s (tp_messageId e) = Some msg"
    and "tp_id e \<notin> set (map tc_id (messageToolCalls s (tp_messageId e)))"
  shows "on_TOOL_CALL_END tc s =
           Returned ((putMessage (tp_messageId e)
                        (msg\<lparr>toolCalls := Some (messageToolCalls s (tp_messageId e)
                             @ [\<lparr>tc_id = tp_id e, tc_type = ''function'',
                                 tc_name = tp_name e, tc_arguments = tp_args e\<rparr>])\<rparr>) s)
                     \<lparr>toolCallsInProgress := (toolCallsInProgress s)(tc := None)\<rparr>)"
  using assms
  by (simp add: on_TOOL_CALL_END_def Let_def messageToolCalls_def split: option.split)



text \<open>
  C10. A \<^verbatim>\<open>TOOL_CALL_END\<close> whose id has no in-progress entry returns normally and
  leaves the state as it was; hence the store as a whole (state and both guard sets)
  is unchanged by its delivery.
\<close>

theorem tool_call_end_without_entry:
  assumes "toolCallsInProgress s tc = None"
  shows "handle now (TOOL_CALL_END tc) s = Returned s
       \<and> run [Deliver now (TOOL_CALL_END tc)] \<lparr>state = s, loadedConversations = ld,
              loadingConversations = lg\<rparr> n
           = (\<lparr>state = s, loadedConversations = ld, loadingConversations = lg\<rparr>, n)"
  using assms by (simp add: on_TOOL_CALL_END_def)

theorem tool_call_end_without_entry_witness:
  "toolCallsInProgress (initialState None) ''tc9'' = None
   \<and> handle 5 (TOOL_CALL_END ''tc9'') (initialState None) = Returned (initialState None)
   \<and> run [Deliver 5 (TOOL_CALL_END ''tc9'')] (newStore None) 0 = (newStore None, 0)"
proof -
  have h: "toolCallsInProgress (initialState None) ''tc9'' = None"
    by (simp add: initialState_def)
  from tool_call_end_without_entry[OF h, of 5 "{}" "{}" 0] h show ?thesis
    by (simp add: newStore_def)
qed

section \<open>Content of a message in a terminal state\<close>

lemma contentOf_simps [simp]:
  "contentOf (s\<lparr>streaming := x\<rparr>) m = contentOf s m"
  "contentOf (s\<lparr>toolCallsInProgress := y\<rparr>) m = contentOf s m"
  "contentOf (s\<lparr>messagesByConversation := z\<rparr>) m = contentOf s m"
  "contentOf (s\<lparr>conversations := cv\<rparr>) m = contentOf s m"
  "contentOf (s\<lparr>attachments := a\<rparr>) m = contentOf s m"
  "contentOf (s\<lparr>agentStateByConversation := ag\<rparr>) m = contentOf s m"
  "contentOf (s\<lparr>activeConversationId := ac\<rparr>) m = contentOf s m"
  "contentOf (appendMessageId c k s) m = contentOf s m"
  by (simp_all add: contentOf_def getMessage_def appendMessageId_def Let_def)

lemma contentOf_putMessage:
  "contentOf (putMessage k v s) m = (if m = k then Some (content v) else contentOf s m)"
  by (simp add: contentOf_def getMessage_putMessage)

lemma contentOf_putMessage_same:
  "getMessage s k = Some a \<Longrightarrow> content v = content a \<Longrightarrow>
   contentOf (putMessage k v s) m = contentOf s m"
  by (cases "m = k") (simp_all add: contentOf_def getMessage_putMessage)

lemma contentOf_updateMessage:
  "(\<And>x. content (f x) = content x) \<Longrightarrow>
   contentOf (stateAfter (updateMessage k f s)) m = contentOf s m"
  by (cases "getMessage s k")
     (simp_all add: updateMessage_def contentOf_putMessage_same)

lemma contentOf_setConversationDoc [simp]:
  "contentOf (setConversationDoc c s) m = contentOf s m"
  by (simp add: setConversationDoc_def)

lemma contentOf_setAttachmentDoc [simp]:
  "contentOf (setAttachmentDoc a s) m = contentOf s m"
  by (simp add: setAttachmentDoc_def)

lemma contentOf_setMessageDoc:
  "m_id d \<noteq> m \<Longrightarrow> contentOf (setMessageDoc d s) m = contentOf s m"
  by (simp add: setMessageDoc_def contentOf_putMessage)

lemma content_TEXT_MESSAGE_START:
  "k \<noteq> m \<Longrightarrow> contentOf (stateAfter (on_TEXT_MESSAGE_START now k r c s)) m = contentOf s m"
  by (simp add: on_TEXT_MESSAGE_START_def Let_def contentOf_putMessage split: option.split)

lemma content_TEXT_MESSAGE_END:
  "\<not> (k = m \<and> truthy (map_option s_text (streaming s m))) \<Longrightarrow>
   contentOf (stateAfter (on_TEXT_MESSAGE_END k s)) m = contentOf s m"
proof (cases "truthy (map_option s_text (streaming s k))")
  case False
  assume "\<not> (k = m \<and> truthy (map_option s_text (streaming s m)))"
  show ?thesis
    using False
    by (simp add: on_TEXT_MESSAGE_END_def contentOf_updateMessage)
next
  case True
  assume "\<not> (k = m \<and> truthy (map_option s_text (streaming s m)))"
  with True have km: "k \<noteq> m" by auto
  show ?thesis
  proof (cases "getMessage s k")
    case None
    then show ?thesis
      using True by (simp add: on_TEXT_MESSAGE_END_def updateMessage_None)
  next
    case (Some x)
    then show ?thesis
      using True km
      by (simp add: on_TEXT_MESSAGE_END_def Let_def updateMessage_Some getMessage_putMessage
            contentOf_putMessage)
  qed
qed

lemma content_message_canceled:
  "\<not> (k = m \<and> truthy (map_option s_text (streaming s m))) \<Longrightarrow>
   contentOf (stateAfter (on_message_canceled k s)) m = contentOf s m"
proof (cases "truthy (map_option s_text (streaming s k))")
  case False
  assume "\<not> (k = m \<and> truthy (map_option s_text (streaming s m)))"
  show ?thesis
    using False
    by (simp add: on_message_canceled_def contentOf_updateMessage)
next
  case True
  assume "\<not> (k = m \<and> truthy (map_option s_text (streaming s m)))"
  with True have km: "k \<noteq> m" by auto
  show ?thesis
  proof (cases "getMessage s k")
    case None
    then show ?thesis
      using True by (simp add: on_message_canceled_def updateMessage_None)
  next
    case (Some x)
    then show ?thesis
      using True km
      by (simp add: on_message_canceled_def Let_def updateMessage_Some getMessage_putMessage
            contentOf_putMessage)
  qed
qed

lemma content_TOOL_CALL_START:
  "getMessage s m = Some msg \<Longrightarrow>
   contentOf (stateAfter (on_TOOL_CALL_START now p t n c s)) m = contentOf s m"
  by (cases "p = m")
     (simp_all add: on_TOOL_CALL_START_def Let_def contentOf_putMessage split: option.split)

lemma content_TOOL_CALL_ARGS:
  "contentOf (stateAfter (on_TOOL_CALL_ARGS t d s)) m = contentOf s m"
  by (simp add: on_TOOL_CALL_ARGS_def split: option.split)

lemma content_TOOL_CALL_END:
  "contentOf (stateAfter (on_TOOL_CALL_END t s)) m = contentOf s m"
  by (simp add: on_TOOL_CALL_END_def Let_def contentOf_putMessage_same
        split: option.split)

lemma content_TOOL_CALL_RESULT:
  "k \<noteq> m \<Longrightarrow> contentOf (stateAfter (on_TOOL_CALL_RESULT now k t c r s)) m = contentOf s m"
  by (simp add: on_TOOL_CALL_RESULT_def Let_def contentOf_putMessage split: option.split)

lemma content_message_created:
  "m_id d \<noteq> m \<Longrightarrow> contentOf (stateAfter (on_message_created d s)) m = contentOf s m"
  by (simp add: on_message_created_def Let_def contentOf_setMessageDoc split: option.split)

lemma content_attachments:
  "contentOf (stateAfter (storeAttachment a s)) m = contentOf s m"
  "contentOf (stateAfter (on_attachment_progress f p s)) m = contentOf s m"
  "contentOf (stateAfter (on_attachment_failed f e s)) m = contentOf s m"
  "contentOf (stateAfter (on_STATE_SNAPSHOT c snap s)) m = contentOf s m"
  by (simp_all add: storeAttachment_def on_attachment_progress_def on_attachment_failed_def
        on_STATE_SNAPSHOT_def Let_def split: option.split)

lemma content_conversations:
  "contentOf (stateAfter (on_conversation_created c s)) m = contentOf s m"
  "contentOf (stateAfter (on_conversation_updated c s)) m = contentOf s m"
  "contentOf (stateAfter (on_conversation_archived k s)) m = contentOf s m"
  by (simp_all add: on_conversation_created_def on_conversation_updated_def
        on_conversation_archived_def split: option.split)

lemma helloCompleted_eq:
  "helloCompleted =
     (initialState None)\<lparr>messages :=
        [(''m1'', \<lparr>m_id = ''m1'', role = ''assistant'', content = ''hi'',
                   conversationId = Some ''c1'', status = Completed, createdAt = Some 1,
                   toolCalls = None, toolCallId = None\<rparr>)],
        messagesByConversation := [''c1'' \<mapsto> [''m1'']]\<rparr>"
  by (simp add: helloCompleted_def on_TEXT_MESSAGE_START_def on_TEXT_MESSAGE_CONTENT_def
        on_TEXT_MESSAGE_END_def updateMessage_def initialState_def
        or_default_def or_else_def truthy_def getMessage_def putMessage_def appendMessageId_def)

lemma helloErrored_eq:
  "helloErrored =
     (initialState None)\<lparr>messages :=
        [(''m1'', \<lparr>m_id = ''m1'', role = ''assistant'', content = [],
                   conversationId = Some ''c1'', status = Errored, createdAt = Some 1,
                   toolCalls = None, toolCallId = None\<rparr>)],
        messagesByConversation := [''c1'' \<mapsto> [''m1'']],
        streaming := [''m1'' \<mapsto> \<lparr>s_text = ''hi''\<rparr>]\<rparr>"
  by (simp add: helloErrored_def on_TEXT_MESSAGE_START_def on_TEXT_MESSAGE_CONTENT_def
        on_message_errored_def updateMessage_def initialState_def
        or_default_def or_else_def truthy_def getMessage_def putMessage_def appendMessageId_def)

text \<open>
  C5, as stated, fails: no handler looks at the status of the message it writes. A
  message streamed to completion with content \<open>hi\<close> has its content reset to the
  empty string when \<^verbatim>\<open>TEXT_MESSAGE_START\<close> arrives again for its id; and a message
  that errored while its buffer held \<open>hi\<close> gets that text as its content from a later
  \<^verbatim>\<open>TEXT_MESSAGE_END\<close>.
\<close>

theorem terminal_content_counterexample:
  "map_option status (getMessage helloCompleted ''m1'') = Some Completed
   \<and> contentOf helloCompleted ''m1'' = Some ''hi''
   \<and> contentOf (stateAfter (handle 4 (TEXT_MESSAGE_START ''m1'' None (Some ''c1''))
                   helloCompleted)) ''m1'' = Some []
   \<and> map_option status (getMessage helloErrored ''m1'') = Some Errored
   \<and> contentOf helloErrored ''m1'' = Some []
   \<and> contentOf (stateAfter (handle 4 (TEXT_MESSAGE_END ''m1'') helloErrored)) ''m1''
       = Some ''hi''"
  unfolding helloCompleted_eq helloErrored_eq
  by (simp add: contentOf_def on_TEXT_MESSAGE_START_def on_TEXT_MESSAGE_END_def
        updateMessage_def initialState_def
        or_default_def or_else_def truthy_def getMessage_def putMessage_def appendMessageId_def)

text \<open>
  C5, amended. For a stored message \<open>m\<close> whose status is completed, errored or canceled,
  every event leaves the content of \<open>m\<close> as it was, whether its handler returns or
  throws, unless the event is a \<^verbatim>\<open>TEXT_MESSAGE_START\<close>, \<^verbatim>\<open>message.created\<close> or
  \<^verbatim>\<open>TOOL_CALL_RESULT\<close> carrying the id of \<open>m\<close>, or a \<^verbatim>\<open>TEXT_MESSAGE_END\<close> or
  \<^verbatim>\<open>message.canceled\<close> for \<open>m\<close> arriving while a streaming buffer with non-empty
  text exists for \<open>m\<close>.
\<close>

theorem terminal_content_kept:
  assumes "getMessage s m = Some msg" and "isTerminal (status msg)"
    and "\<not> rewritesContent e m s"
  shows "contentOf (stateAfter (handle now e s)) m = Some (content msg)"
proof -
  have "contentOf (stateAfter (handle now e s)) m = contentOf s m"
  proof (cases e)
    case (TEXT_MESSAGE_START k r c)
    then show ?thesis using assms(3) by (simp add: content_TEXT_MESSAGE_START)
  next
    case (TEXT_MESSAGE_END k)
    then show ?thesis using assms(3) by (simp add: content_TEXT_MESSAGE_END)
  next
    case (message_canceled k)
    then show ?thesis using assms(3) by (simp add: content_message_canceled)
  next
    case (message_errored k)
    then show ?thesis by (simp add: on_message_errored_def contentOf_updateMessage)
  next
    case (message_created d)
    then show ?thesis using assms(3) by (simp add: content_message_created)
  next
    case (TOOL_CALL_START p t n c)
    then show ?thesis using assms(1) by (simp add: content_TOOL_CALL_START)
  next
    case (TOOL_CALL_ARGS t d)
    then show ?thesis by (simp add: content_TOOL_CALL_ARGS)
  next
    case (TOOL_CALL_END t)
    then show ?thesis by (simp add: content_TOOL_CALL_END)
  next
    case (TOOL_CALL_RESULT k t c r)
    then show ?thesis using assms(3) by (simp add: content_TOOL_CALL_RESULT)
  next
    case (TEXT_MESSAGE_CONTENT k d)
    then show ?thesis by (simp add: on_TEXT_MESSAGE_CONTENT_def Let_def)
  qed (simp_all add: content_attachments content_conversations
         on_attachment_uploading_def on_attachment_available_def)
  then show ?thesis
    using assms(1) by (simp add: contentOf_def)
qed

theorem terminal_content_kept_witness:
  "map_option status (getMessage helloCompleted ''m1'') = Some Completed
   \<and> isTerminal Completed
   \<and> \<not> rewritesContent (TEXT_MESSAGE_END ''m1'') ''m1'' helloCompleted
   \<and> contentOf (stateAfter (handle 4 (TEXT_MESSAGE_END ''m1'') helloCompleted)) ''m1''
       = Some ''hi''"
proof -
  let ?msg = "\<lparr>m_id = ''m1'', role = ''assistant'', content = ''hi'',
                   conversationId = Some ''c1'', status = Completed, createdAt = Some 1,
                   toolCalls = None, toolCallId = None\<rparr>"
  have g: "getMessage helloCompleted ''m1'' = Some ?msg"
    unfolding helloCompleted_eq by (simp add: getMessage_def)
  have t: "isTerminal (status ?msg)" by (simp add: isTerminal_def)
  have r: "\<not> rewritesContent (TEXT_MESSAGE_END ''m1'') ''m1'' helloCompleted"
    unfolding helloCompleted_eq by (simp add: truthy_def initialState_def)
  from terminal_content_kept[OF g t r, of 4] g t r show ?thesis
    by simp
qed

section \<open>A failed attachment\<close>



section \<open>Loading the conversation list\<close>

lemma conversationsMap_snoc:
  "conversationsMap (cs @ [c]) = (conversationsMap cs)(c_id c \<mapsto> c)"
  by (simp add: conversationsMap_def)

lemma dom_conversationsMap: "dom (conversationsMap cs) = c_id ` set cs"
proof (induction cs rule: rev_induct)
  case Nil
  show ?case by (simp add: conversationsMap_def)
next
  case (snoc c cs)
  have "dom (conversationsMap (cs @ [c])) = insert (c_id c) (dom (conversationsMap cs))"
    unfolding conversationsMap_snoc by simp
  also have "\<dots> = insert (c_id c) (c_id ` set cs)"
    unfolding snoc.IH ..
  also have "\<dots> = c_id ` set (cs @ [c])"
    by simp
  finally show ?case .
qed

lemma loadConversations_merges:
  "conversations (loadConversations cs s) k =
     (if k \<in> c_id ` set cs then conversationsMap cs k else conversations s k)"
  using dom_conversationsMap[of cs]
  by (auto simp: loadConversations_def map_add_def split: option.splits)

text \<open>
  C7. \<^verbatim>\<open>loadConversations\<close> writes the fetched map with
  \<^verbatim>\<open>setState('conversations', conversationsMap)\<close>, which merges. With the conversation
  \<open>old\<close> in the store and a fetch that returns only \<open>new\<close>, the map afterwards holds
  both: \<open>old\<close> is still present.
\<close>

theorem loadConversations_keeps_absent:
  "conversations (loadConversations [convNew]
      ((initialState None)\<lparr>conversations := [''old'' \<mapsto> convOld]\<rparr>)) ''old'' = Some convOld
   \<and> conversations (loadConversations [convNew]
      ((initialState None)\<lparr>conversations := [''old'' \<mapsto> convOld]\<rparr>)) ''new'' = Some convNew"
  by (simp add: loadConversations_def conversationsMap_def convNew_def convOld_def map_add_def)

section \<open>Reconciling local and server messages\<close>

lemma finalMessages_retained:
  "finalMessages s c msgs = sort_key msgTime (retainedLocal s c msgs @ msgs)"
  by (simp add: finalMessages_def retainedLocal_def isPreserved_def Let_def conj_commute)

lemma in_map_filter: "y \<in> set (List.map_filter f xs) \<longleftrightarrow> (\<exists>x\<in>set xs. f x = Some y)"
  by (induction xs) (auto simp: List.map_filter_simps split: option.splits)

lemma getMessage_setMessageDoc:
  "getMessage (setMessageDoc x s) k =
     (if k = m_id x
      then Some (case getMessage s (m_id x) of
                   None \<Rightarrow> x
                 | Some prev \<Rightarrow> mergeStoreNode_message prev x)
      else getMessage s k)"
  by (simp add: setMessageDoc_def getMessage_putMessage)

lemma setMessageDoc_fields [simp]:
  "messagesByConversation (setMessageDoc x s) = messagesByConversation s"
  "streaming (setMessageDoc x s) = streaming s"
  by (simp_all add: setMessageDoc_def)

lemma mergeStoreNode_message_fields [simp]:
  "m_id (mergeStoreNode_message p x) = m_id x"
  "content (mergeStoreNode_message p x) = content x"
  "status (mergeStoreNode_message p x) = status x"
  "role (mergeStoreNode_message p x) = role x"
  by (simp_all add: mergeStoreNode_message_def)

lemma writeAll_snoc: "writeAll (xs @ [x]) s = setMessageDoc x (writeAll xs s)"
  by (simp add: writeAll_def)

lemma writeAll_Nil: "writeAll [] s = s"
  by (simp add: writeAll_def)

lemma writeAll_messagesByConversation [simp]:
  "messagesByConversation (writeAll xs s) = messagesByConversation s"
  by (induction xs rule: rev_induct) (simp_all add: writeAll_snoc writeAll_Nil)

lemma writeAll_untouched:
  "k \<notin> m_id ` set xs \<Longrightarrow> getMessage (writeAll xs s) k = getMessage s k"
  by (induction xs rule: rev_induct)
     (simp_all add: writeAll_snoc writeAll_Nil getMessage_setMessageDoc)

lemma writeAll_written_id:
  "k \<in> m_id ` set xs \<Longrightarrow> getMessage (writeAll xs s) k = Some m \<Longrightarrow> m_id m = k"
proof (induction xs arbitrary: m rule: rev_induct)
  case Nil
  then show ?case by simp
next
  case (snoc x xs)
  show ?case
  proof (cases "k = m_id x")
    case True
    with snoc.prems(2) show ?thesis
      by (auto simp: writeAll_snoc getMessage_setMessageDoc split: option.splits)
  next
    case False
    with snoc.prems have "k \<in> m_id ` set xs" and "getMessage (writeAll xs s) k = Some m"
      by (auto simp: writeAll_snoc getMessage_setMessageDoc)
    then show ?thesis by (rule snoc.IH)
  qed
qed

lemma writeAll_server_copy:
  assumes "b \<in> set xs" and "\<forall>y\<in>set xs. m_id y = m_id b \<longrightarrow> y = b"
  shows "\<exists>z. getMessage (writeAll xs s) (m_id b) = Some z
           \<and> content z = content b \<and> status z = status b \<and> role z = role b"
  using assms
proof (induction xs rule: rev_induct)
  case Nil
  then show ?case by simp
next
  case (snoc x xs)
  show ?case
  proof (cases "m_id x = m_id b")
    case True
    with snoc.prems(2) have "x = b" by simp
    then show ?thesis
      by (simp add: writeAll_snoc getMessage_setMessageDoc split: option.split)
  next
    case False
    with snoc.prems have "b \<in> set xs" and "\<forall>y\<in>set xs. m_id y = m_id b \<longrightarrow> y = b"
      by auto
    from snoc.IH[OF this] False show ?thesis
      by (simp add: writeAll_snoc getMessage_setMessageDoc)
  qed
qed

lemma carryOverIds_empty:
  "carryOverIds (writeAll (finalMessages s c msgs) s) (map m_id (finalMessages s c msgs))
     (case messagesByConversation s c of None \<Rightarrow> [] | Some a \<Rightarrow> a) = []"
proof -
  let ?final = "finalMessages s c msgs"
  let ?prev = "case messagesByConversation s c of None \<Rightarrow> [] | Some a \<Rightarrow> a"
  have "\<not> (isPreserved m \<and> m_id m \<notin> set (map m_id ?final))"
    if "m \<in> set (List.map_filter (getMessage (writeAll ?final s)) ?prev)" for m
  proof -
    from that obtain k where k: "k \<in> set ?prev" and g: "getMessage (writeAll ?final s) k = Some m"
      by (auto simp: in_map_filter)
    show ?thesis
    proof (cases "k \<in> m_id ` set ?final")
      case True
      from writeAll_written_id[OF True g] True show ?thesis by simp
    next
      case False
      with g have g0: "getMessage s k = Some m" by (simp add: writeAll_untouched)
      with k have cur: "m \<in> set (currentMessages s c)"
        by (auto simp: currentMessages_def in_map_filter)
      show ?thesis
      proof (cases "isPreserved m")
        case False
        then show ?thesis by simp
      next
        case True
        have "m_id m \<in> m_id ` set ?final"
        proof (cases "m_id m \<in> set (map m_id msgs)")
          case True
          then show ?thesis by (auto simp: finalMessages_def Let_def)
        next
          case False
          with True cur have "m \<in> set ?final"
            by (simp add: finalMessages_def Let_def)
          then show ?thesis by blast
        qed
        then show ?thesis by simp
      qed
    qed
  qed
  then show ?thesis
    by (simp add: carryOverIds_def filter_empty_conv)
qed

lemma reconcileMessages_sequence:
  "messagesByConversation (reconcileMessages c msgs s) c
     = Some (map m_id (finalMessages s c msgs))"
  using carryOverIds_empty[of s c msgs]
  by (simp add: reconcileMessages_def Let_def)


lemma finalMessages_unique_server:
  assumes "b \<in> set msgs" and "distinct (map m_id msgs)"
  shows "\<forall>y\<in>set (finalMessages s c msgs). m_id y = m_id b \<longrightarrow> y = b"
proof (intro ballI impI)
  fix y assume y: "y \<in> set (finalMessages s c msgs)" and same: "m_id y = m_id b"
  from y have "y \<in> set (retainedLocal s c msgs) \<or> y \<in> set msgs"
    by (simp add: finalMessages_retained)
  then show "y = b"
  proof
    assume "y \<in> set (retainedLocal s c msgs)"
    then have "m_id y \<notin> m_id ` set msgs" by (simp add: retainedLocal_def)
    with same assms(1) show ?thesis by auto
  next
    assume "y \<in> set msgs"
    with assms same show ?thesis
      by (auto simp: distinct_map dest: inj_onD)
  qed
qed

text \<open>
  C2. When the fetch of \<^verbatim>\<open>loadMessages\<close> resolves, the sequence installed for the
  conversation is the list of ids of: the local messages that are streaming or carry the
  prefix \<open>msg_\<close> and whose id the server did not return, followed by the server's
  messages, the whole sorted by \<^verbatim>\<open>createdAt\<close> ascending. The sort keeps every message
  (it is a permutation), keeps the order of messages with equal time, and a message
  without \<^verbatim>\<open>createdAt\<close> sorts as time 0. On an id collision the server copy wins: the
  local copy is not retained, and when the server's ids are distinct the message stored
  under a server id has the server's content, status and role.
\<close>

theorem loadMessages_reconciliation:
  "messagesByConversation (state (loadMessages_resolved c msgs st)) c
      = Some (map m_id (sort_key msgTime (retainedLocal (state st) c msgs @ msgs)))
   \<and> sorted (map msgTime (sort_key msgTime (retainedLocal (state st) c msgs @ msgs)))
   \<and> mset (sort_key msgTime (retainedLocal (state st) c msgs @ msgs))
       = mset (retainedLocal (state st) c msgs) + mset msgs
   \<and> filter (\<lambda>m. msgTime m = t) (sort_key msgTime (retainedLocal (state st) c msgs @ msgs))
       = filter (\<lambda>m. msgTime m = t) (retainedLocal (state st) c msgs @ msgs)
   \<and> msgTime (m\<lparr>createdAt := None\<rparr>) = 0
   \<and> (b \<in> set msgs \<and> distinct (map m_id msgs) \<longrightarrow>
        (\<exists>z. getMessage (state (loadMessages_resolved c msgs st)) (m_id b) = Some z
            \<and> content z = content b \<and> status z = status b \<and> role z = role b))"
proof (intro conjI impI)
  show "messagesByConversation (state (loadMessages_resolved c msgs st)) c
      = Some (map m_id (sort_key msgTime (retainedLocal (state st) c msgs @ msgs)))"
    by (simp add: loadMessages_resolved_def reconcileMessages_sequence finalMessages_retained)
  show "sorted (map msgTime (sort_key msgTime (retainedLocal (state st) c msgs @ msgs)))"
    by (rule sorted_sort_key)
  show "mset (sort_key msgTime (retainedLocal (state st) c msgs @ msgs))
       = mset (retainedLocal (state st) c msgs) + mset msgs"
    by simp
  show "filter (\<lambda>m. msgTime m = t) (sort_key msgTime (retainedLocal (state st) c msgs @ msgs))
       = filter (\<lambda>m. msgTime m = t) (retainedLocal (state st) c msgs @ msgs)"
    by (rule sort_key_stable)
  show "msgTime (m\<lparr>createdAt := None\<rparr>) = 0"
    by (simp add: msgTime_def)
next
  assume "b \<in> set msgs \<and> distinct (map m_id msgs)"
  then have b: "b \<in> set msgs" and d: "distinct (map m_id msgs)" by simp_all
  have inb: "b \<in> set (finalMessages (state st) c msgs)"
    using b by (simp add: finalMessages_retained)
  have "getMessage (state (loadMessages_resolved c msgs st)) (m_id b)
          = getMessage (writeAll (finalMessages (state st) c msgs) (state st)) (m_id b)"
    by (simp add: loadMessages_resolved_def reconcileMessages_def Let_def)
  with writeAll_server_copy[OF inb finalMessages_unique_server[OF b d]]
  show "\<exists>z. getMessage (state (loadMessages_resolved c msgs st)) (m_id b) = Some z
            \<and> content z = content b \<and> status z = status b \<and> role z = role b"
    by simp
qed

theorem loadMessages_reconciliation_witness:
  "messagesByConversation (state (loadMessages_resolved ''c1'' serverMessages localStore)) ''c1''
      = Some [''a'', ''b'', ''msg_1'']
   \<and> mkMessage ''b'' ''partial and more'' Completed 20 \<in> set serverMessages
   \<and> distinct (map m_id serverMessages)
   \<and> (\<exists>z. getMessage (state (loadMessages_resolved ''c1'' serverMessages localStore)) ''b'' = Some z
          \<and> content z = ''partial and more'' \<and> status z = Completed)"
proof -
  have ret: "retainedLocal (state localStore) ''c1'' serverMessages
               = [mkMessage ''msg_1'' ''draft'' Pending 30]"
    by (simp add: retainedLocal_def currentMessages_def localStore_def serverMessages_def
          mkMessage_def getMessage_def List.map_filter_simps)
  have b: "mkMessage ''b'' ''partial and more'' Completed 20 \<in> set serverMessages"
    by (simp add: serverMessages_def)
  have d: "distinct (map m_id serverMessages)"
    by (simp add: serverMessages_def mkMessage_def)
  note th = loadMessages_reconciliation[of "''c1''" serverMessages localStore 0
      "mkMessage ''b'' ''partial and more'' Completed 20"
      "mkMessage ''b'' ''partial and more'' Completed 20"]
  have seq: "messagesByConversation (state (loadMessages_resolved ''c1'' serverMessages localStore)) ''c1''
      = Some [''a'', ''b'', ''msg_1'']"
    using th unfolding ret by (simp add: serverMessages_def mkMessage_def msgTime_def)
  have copy: "\<exists>z. getMessage (state (loadMessages_resolved ''c1'' serverMessages localStore)) ''b'' = Some z
          \<and> content z = ''partial and more'' \<and> status z = Completed"
    using th b d by (auto simp: mkMessage_def)
  show ?thesis
    using seq b d copy by blast
qed

section \<open>The guards of loadMessages\<close>

lemma run_append:
  "run (as @ bs) st n = (case run as st n of (st', n') \<Rightarrow> run bs st' n')"
  by (induction as st n rule: run.induct) (simp_all split: loadStep.split)

lemma loading_kept:
  "c \<in> loadingConversations st \<Longrightarrow> \<forall>a\<in>set as. \<not> settles c a \<Longrightarrow>
   c \<in> loadingConversations (fst (run as st n))"
proof (induction as st n rule: run.induct)
  case (1 st n)
  then show ?case by simp
next
  case (2 t e as st n)
  then show ?case by simp
next
  case (3 c' force as st n)
  then show ?case
    by (auto simp: loadMessages_call_def split: if_splits)
next
  case (4 c' msgs as st n)
  then show ?case by (auto simp: loadMessages_resolved_def)
next
  case (5 c' as st n)
  then show ?case by (auto simp: loadMessages_rejected_def)
qed

text \<open>
  C6. A call of \<^verbatim>\<open>loadMessages\<close> for a conversation whose load is in flight returns
  without fetching and leaves the store unchanged, forced or not; so does an unforced call
  for a conversation already loaded. Hence, when a first call has started a fetch for
  \<open>c\<close> and that fetch has not settled yet, a second call for \<open>c\<close> makes no difference:
  whatever else happens before and after it, the store ends up the same and the same
  number of \<^verbatim>\<open>getMessages\<close> requests has been issued as without the second call.
\<close>

theorem loadMessages_guards:
  "(c \<in> loadingConversations st \<longrightarrow> loadMessages_call c force st = Skipped st)
   \<and> (c \<in> loadedConversations st \<and> \<not> force \<longrightarrow> loadMessages_call c force st = Skipped st)
   \<and> ((force \<or> c \<notin> loadedConversations st) \<and> c \<notin> loadingConversations st
        \<and> (\<forall>a\<in>set as1. \<not> settles c a) \<longrightarrow>
       run (CallLoadMessages c force # as1 @ CallLoadMessages c force' # as2) st n
         = run (CallLoadMessages c force # as1 @ as2) st n
       \<and> snd (run (CallLoadMessages c force # as1 @ [CallLoadMessages c force']) st n)
         = snd (run (CallLoadMessages c force # as1) st n))"
proof (intro conjI impI)
  show "loadMessages_call c force st = Skipped st" if "c \<in> loadingConversations st"
    using that by (simp add: loadMessages_call_def)
  show "loadMessages_call c force st = Skipped st" if "c \<in> loadedConversations st \<and> \<not> force"
    using that by (simp add: loadMessages_call_def)
next
  assume h: "(force \<or> c \<notin> loadedConversations st) \<and> c \<notin> loadingConversations st
        \<and> (\<forall>a\<in>set as1. \<not> settles c a)"
  let ?st1 = "st\<lparr>loadingConversations := insert c (loadingConversations st)\<rparr>"
  have first: "loadMessages_call c force st = AwaitingFetch ?st1"
    using h by (auto simp: loadMessages_call_def)
  obtain st2 n2 where mid: "run as1 ?st1 (Suc n) = (st2, n2)"
    by (cases "run as1 ?st1 (Suc n)")
  have "c \<in> loadingConversations (fst (run as1 ?st1 (Suc n)))"
    using h by (intro loading_kept) simp_all
  with mid have "c \<in> loadingConversations st2" by simp
  then have second: "loadMessages_call c force' st2 = Skipped st2"
    by (simp add: loadMessages_call_def)
  show "run (CallLoadMessages c force # as1 @ CallLoadMessages c force' # as2) st n
         = run (CallLoadMessages c force # as1 @ as2) st n"
    by (simp add: first run_append mid second)
  show "snd (run (CallLoadMessages c force # as1 @ [CallLoadMessages c force']) st n)
         = snd (run (CallLoadMessages c force # as1) st n)"
    by (simp add: first run_append mid second)
qed


theorem loadMessages_guards_witness:
  "loadMessages_call ''c1'' True localStore = Skipped localStore
   \<and> loadMessages_call ''c1'' False ((newStore None)\<lparr>loadedConversations := {''c1''}\<rparr>)
       = Skipped ((newStore None)\<lparr>loadedConversations := {''c1''}\<rparr>)
   \<and> run [CallLoadMessages ''c1'' False,
           Deliver 1 (TEXT_MESSAGE_START ''m1'' None (Some ''c1'')),
           CallLoadMessages ''c1'' True,
           FetchResolved ''c1'' serverMessages] (newStore None) 0
       = run [CallLoadMessages ''c1'' False,
              Deliver 1 (TEXT_MESSAGE_START ''m1'' None (Some ''c1'')),
              FetchResolved ''c1'' serverMessages] (newStore None) 0
   \<and> snd (run [CallLoadMessages ''c1'' False,
                Deliver 1 (TEXT_MESSAGE_START ''m1'' None (Some ''c1'')),
                CallLoadMessages ''c1'' True] (newStore None) 0) = 1"
proof -
  have a: "loadMessages_call ''c1'' True localStore = Skipped localStore"
    using loadMessages_guards[of "''c1''" localStore True "[]" False "[]" 0]
    by (simp add: localStore_def)
  have b: "loadMessages_call ''c1'' False ((newStore None)\<lparr>loadedConversations := {''c1''}\<rparr>)
       = Skipped ((newStore None)\<lparr>loadedConversations := {''c1''}\<rparr>)"
    using loadMessages_guards[of "''c1''" "(newStore None)\<lparr>loadedConversations := {''c1''}\<rparr>"
        False "[]" False "[]" 0]
    by simp
  have pre: "(False \<or> ''c1'' \<notin> loadedConversations (newStore None))
        \<and> ''c1'' \<notin> loadingConversations (newStore None)
        \<and> (\<forall>a\<in>set [Deliver 1 (TEXT_MESSAGE_START ''m1'' None (Some ''c1''))]. \<not> settles ''c1'' a)"
    by (simp add: newStore_def)
  note th = loadMessages_guards[of "''c1''" "newStore None" False
      "[Deliver 1 (TEXT_MESSAGE_START ''m1'' None (Some ''c1''))]" True
      "[FetchResolved ''c1'' serverMessages]" 0, THEN conjunct2, THEN conjunct2, rule_format, OF pre]
  have c: "run [CallLoadMessages ''c1'' False,
           Deliver 1 (TEXT_MESSAGE_START ''m1'' None (Some ''c1'')),
           CallLoadMessages ''c1'' True,
           FetchResolved ''c1'' serverMessages] (newStore None) 0
       = run [CallLoadMessages ''c1'' False,
              Deliver 1 (TEXT_MESSAGE_START ''m1'' None (Some ''c1'')),
              FetchResolved ''c1'' serverMessages] (newStore None) 0"
    using th[THEN conjunct1] by simp
  have "snd (run [CallLoadMessages ''c1'' False,
                Deliver 1 (TEXT_MESSAGE_START ''m1'' None (Some ''c1''))] (newStore None) 0) = 1"
    by (simp add: loadMessages_call_def newStore_def)
  with th[THEN conjunct2] have d: "snd (run [CallLoadMessages ''c1'' False,
                Deliver 1 (TEXT_MESSAGE_START ''m1'' None (Some ''c1'')),
                CallLoadMessages ''c1'' True] (newStore None) 0) = 1"
    by simp
  show ?thesis
    using a b c d by blast
qed

section \<open>Saving and loading the agent state\<close>

lemma setItem_fits:
  "length v \<le> quota st \<Longrightarrow> setItem k v st = Inr (st\<lparr>items := (items st)(k \<mapsto> v)\<rparr>)"
  by (simp add: setItem_def)

lemma loadAgentState_record:
  assumes "items st STORAGE_KEY = Some stored" and "stored \<noteq> []"
    and "parse stored = Some (persistedData v t d)"
  shows "loadAgentState parse st =
           (if v \<noteq> STORAGE_VERSION then None else case d of JNull \<Rightarrow> None | _ \<Rightarrow> Some d)"
  using assms
  by (cases d) (simp_all add: loadAgentState_def persistedData_def)




section \<open>The message map stays keyed by message id\<close>

lemma list_all_update:
  "list_all P al \<Longrightarrow> P (k, v) \<Longrightarrow> list_all P (AList.update k v al)"
  by (induction al) auto

lemma wellKeyed_putMessage:
  "wellKeyed s \<Longrightarrow> m_id v = k \<Longrightarrow> wellKeyed (putMessage k v s)"
  by (simp add: wellKeyed_def putMessage_def distinct_update list_all_update)

lemma wellKeyed_getMessage:
  "wellKeyed s \<Longrightarrow> getMessage s k = Some m \<Longrightarrow> m_id m = k"
  by (auto simp: wellKeyed_def getMessage_def list_all_iff dest: map_of_SomeD)

lemma wellKeyed_putMessage_same:
  "wellKeyed s \<Longrightarrow> getMessage s k = Some m \<Longrightarrow> m_id v = m_id m \<Longrightarrow>
   wellKeyed (putMessage k v s)"
  using wellKeyed_getMessage[of s k m] by (simp add: wellKeyed_putMessage)

lemma wellKeyed_other [simp]:
  "wellKeyed (s\<lparr>streaming := x\<rparr>) = wellKeyed s"
  "wellKeyed (s\<lparr>toolCallsInProgress := y\<rparr>) = wellKeyed s"
  "wellKeyed (s\<lparr>messagesByConversation := z\<rparr>) = wellKeyed s"
  "wellKeyed (s\<lparr>conversations := cv\<rparr>) = wellKeyed s"
  "wellKeyed (s\<lparr>attachments := a\<rparr>) = wellKeyed s"
  "wellKeyed (s\<lparr>agentStateByConversation := ag\<rparr>) = wellKeyed s"
  "wellKeyed (s\<lparr>activeConversationId := ac\<rparr>) = wellKeyed s"
  "wellKeyed (appendMessageId c k s) = wellKeyed s"
  "wellKeyed (setConversationDoc cd s) = wellKeyed s"
  "wellKeyed (setAttachmentDoc ad s) = wellKeyed s"
  by (simp_all add: wellKeyed_def appendMessageId_def Let_def setConversationDoc_def
        setAttachmentDoc_def)

lemma wellKeyed_updateMessage:
  "wellKeyed s \<Longrightarrow> (\<And>x. m_id (f x) = m_id x) \<Longrightarrow> wellKeyed (stateAfter (updateMessage k f s))"
  by (cases "getMessage s k")
     (simp_all add: updateMessage_def wellKeyed_putMessage wellKeyed_getMessage)

lemma wellKeyed_setMessageDoc: "wellKeyed s \<Longrightarrow> wellKeyed (setMessageDoc d s)"
  by (simp add: setMessageDoc_def wellKeyed_putMessage mergeStoreNode_message_def
        split: option.split)

lemma wellKeyed_initialState: "wellKeyed (initialState p)"
  by (simp add: wellKeyed_def initialState_def)

lemma wellKeyed_handle:
  assumes "wellKeyed s"
  shows "wellKeyed (stateAfter (handle now e s))"
proof (cases e)
  case (TEXT_MESSAGE_START k r c)
  then show ?thesis using assms
    by (simp add: on_TEXT_MESSAGE_START_def Let_def wellKeyed_putMessage split: option.split)
next
  case (TEXT_MESSAGE_END k)
  show ?thesis
  proof (cases "getMessage s k")
    case None
    then show ?thesis using assms TEXT_MESSAGE_END
      by (simp add: on_TEXT_MESSAGE_END_def Let_def updateMessage_None)
  next
    case (Some x)
    then show ?thesis using assms TEXT_MESSAGE_END wellKeyed_getMessage[OF assms Some]
      by (simp add: on_TEXT_MESSAGE_END_def Let_def updateMessage_Some getMessage_putMessage
            wellKeyed_putMessage)
  qed
next
  case (message_canceled k)
  show ?thesis
  proof (cases "getMessage s k")
    case None
    then show ?thesis using assms message_canceled
      by (simp add: on_message_canceled_def Let_def updateMessage_None)
  next
    case (Some x)
    then show ?thesis using assms message_canceled wellKeyed_getMessage[OF assms Some]
      by (simp add: on_message_canceled_def Let_def updateMessage_Some getMessage_putMessage
            wellKeyed_putMessage)
  qed
next
  case (message_errored k)
  then show ?thesis using assms by (simp add: on_message_errored_def wellKeyed_updateMessage)
next
  case (message_created d)
  then show ?thesis using assms
    by (simp add: on_message_created_def Let_def wellKeyed_setMessageDoc split: option.split)
next
  case (TOOL_CALL_START p t n c)
  then show ?thesis using assms
    by (simp add: on_TOOL_CALL_START_def Let_def wellKeyed_putMessage split: option.split)
next
  case (TOOL_CALL_ARGS t d)
  then show ?thesis using assms by (simp add: on_TOOL_CALL_ARGS_def split: option.split)
next
  case (TOOL_CALL_END t)
  then show ?thesis using assms
    by (simp add: on_TOOL_CALL_END_def Let_def wellKeyed_putMessage_same split: option.split)
next
  case (TOOL_CALL_RESULT k t c r)
  then show ?thesis using assms
    by (simp add: on_TOOL_CALL_RESULT_def Let_def wellKeyed_putMessage split: option.split)
next
  case (TEXT_MESSAGE_CONTENT k d)
  then show ?thesis using assms by (simp add: on_TEXT_MESSAGE_CONTENT_def Let_def)
next
  case (conversation_created c)
  then show ?thesis using assms by (simp add: on_conversation_created_def)
next
  case (conversation_updated c)
  then show ?thesis using assms by (simp add: on_conversation_updated_def)
next
  case (conversation_archived k)
  then show ?thesis using assms by (simp add: on_conversation_archived_def split: option.split)
next
  case (attachment_uploading a)
  then show ?thesis using assms
    by (simp add: on_attachment_uploading_def storeAttachment_def Let_def split: option.split)
next
  case (attachment_available a)
  then show ?thesis using assms
    by (simp add: on_attachment_available_def storeAttachment_def Let_def split: option.split)
next
  case (attachment_progress f p)
  then show ?thesis using assms by (simp add: on_attachment_progress_def split: option.split)
next
  case (attachment_failed f e)
  then show ?thesis using assms
    by (simp add: on_attachment_failed_def Let_def split: option.split)
next
  case (STATE_SNAPSHOT c snap)
  then show ?thesis using assms by (simp add: on_STATE_SNAPSHOT_def split: option.split)
qed


lemma wellKeyed_writeAll: "wellKeyed s \<Longrightarrow> wellKeyed (writeAll xs s)"
  by (induction xs rule: rev_induct) (simp_all add: writeAll_def wellKeyed_setMessageDoc)

lemma wellKeyed_reconcileMessages: "wellKeyed s \<Longrightarrow> wellKeyed (reconcileMessages c msgs s)"
  by (simp add: reconcileMessages_def Let_def wellKeyed_writeAll)

lemma wellKeyed_run:
  "wellKeyed (state st) \<Longrightarrow> wellKeyed (state (fst (run as st n)))"
proof (induction as st n rule: run.induct)
  case (3 c force as st n)
  then show ?case
    by (simp add: loadMessages_call_def split: if_splits)
next
  case (4 c msgs as st n)
  then show ?case
    by (simp add: loadMessages_resolved_def wellKeyed_reconcileMessages)
qed (simp_all add: wellKeyed_handle loadMessages_rejected_def)

lemma wellKeyed_reachable: "wellKeyed (state (fst (run as (newStore p) 0)))"
  by (rule wellKeyed_run) (simp add: newStore_def wellKeyed_initialState)

end
